theory Spec2Isabelle
  imports Complex_Main "HOL-Library.Sublist" "HOL-Library.AList"
begin

section \<open>Python values\<close>

text \<open>
  The gateway of \<^verbatim>\<open>app.py\<close> handles values decoded from JSON and builds its results as
  dictionaries. Both are values of one type. A Python \<^verbatim>\<open>str\<close> is a \<open>string\<close>: one
  \<open>char\<close> per code point, for text whose code points are below 256. A \<^verbatim>\<open>dict\<close> with
  string keys is an association list read by \<open>map_of\<close> (the first binding of a key is
  the dictionary's).
\<close>

datatype pyfloat = Finite rat | PosInf | NegInf | NaN

datatype pyval =
    PNone
  | PBool bool
  | PInt int
  | PFloat pyfloat
  | PStr string
  | PList "pyval list"
  | PDict "(string \<times> pyval) list"

text \<open>Exceptions carry the text that \<^verbatim>\<open>str(e)\<close> gives.\<close>

datatype pyexc =
    JSONDecodeError string
  | TypeError string
  | AttributeError string
  | OtherError string

fun exc_str :: "pyexc \<Rightarrow> string" where
  "exc_str (JSONDecodeError m) = m"
| "exc_str (TypeError m) = m"
| "exc_str (AttributeError m) = m"
| "exc_str (OtherError m) = m"

fun py_typename :: "pyval \<Rightarrow> string" where
  "py_typename PNone = ''NoneType''"
| "py_typename (PBool b) = ''bool''"
| "py_typename (PInt i) = ''int''"
| "py_typename (PFloat f) = ''float''"
| "py_typename (PStr s) = ''str''"
| "py_typename (PList xs) = ''list''"
| "py_typename (PDict d) = ''dict''"

text \<open>Truth value of an object, as \<^verbatim>\<open>if x:\<close>, \<^verbatim>\<open>not x\<close> and \<^verbatim>\<open>x or y\<close> test it.\<close>

fun py_truthy :: "pyval \<Rightarrow> bool" where
  "py_truthy PNone = False"
| "py_truthy (PBool b) = b"
| "py_truthy (PInt i) = (i \<noteq> 0)"
| "py_truthy (PFloat (Finite q)) = (q \<noteq> 0)"
| "py_truthy (PFloat f) = True"
| "py_truthy (PStr s) = (s \<noteq> [])"
| "py_truthy (PList xs) = (xs \<noteq> [])"
| "py_truthy (PDict d) = (d \<noteq> [])"

definition py_or :: "pyval \<Rightarrow> pyval \<Rightarrow> pyval" where
  "py_or a b = (if py_truthy a then a else b)"

text \<open>\<^verbatim>\<open>d.get(k)\<close> and \<^verbatim>\<open>d.get(k, default)\<close>.\<close>

definition dict_get :: "(string \<times> pyval) list \<Rightarrow> string \<Rightarrow> pyval" where
  "dict_get d k = (case map_of d k of None \<Rightarrow> PNone | Some v \<Rightarrow> v)"

definition dict_get_default :: "(string \<times> pyval) list \<Rightarrow> string \<Rightarrow> pyval \<Rightarrow> pyval" where
  "dict_get_default d k dflt = (case map_of d k of None \<Rightarrow> dflt | Some v \<Rightarrow> v)"

definition dict_has :: "(string \<times> pyval) list \<Rightarrow> string \<Rightarrow> bool" where
  "dict_has d k = (case map_of d k of None \<Rightarrow> False | Some v \<Rightarrow> True)"

fun is_str :: "pyval \<Rightarrow> bool" where
  "is_str (PStr s) = True"
| "is_str v = False"

fun is_dict :: "pyval \<Rightarrow> bool" where
  "is_dict (PDict d) = True"
| "is_dict v = False"

section \<open>String operations of the Python library\<close>

abbreviation dq :: char where "dq \<equiv> CHR 0x22"
abbreviation bsl :: char where "bsl \<equiv> CHR 0x5C"
abbreviation nl :: char where "nl \<equiv> CHR 0x0A"
abbreviation tab :: char where "tab \<equiv> CHR 0x09"

text \<open>
  \<^verbatim>\<open>str.isspace\<close> on one character, which is also what \<^verbatim>\<open>\s\<close> matches in a \<^verbatim>\<open>str\<close>
  pattern: below 256 these are 9 to 13, 28 to 32, 133 and 160.
\<close>

definition py_isspace :: "char \<Rightarrow> bool" where
  "py_isspace c =
     (let n = (of_char c :: nat)
      in (9 \<le> n \<and> n \<le> 13) \<or> (28 \<le> n \<and> n \<le> 32) \<or> n = 133 \<or> n = 160)"

definition py_strip :: "string \<Rightarrow> string" where
  "py_strip s = rev (dropWhile py_isspace (rev (dropWhile py_isspace s)))"

text \<open>\<^verbatim>\<open>str.lower\<close>: below 256 the cased capitals are A to Z and 192 to 222 without 215.\<close>

definition lower_char :: "char \<Rightarrow> char" where
  "lower_char c =
     (let n = (of_char c :: nat)
      in if (65 \<le> n \<and> n \<le> 90) \<or> (192 \<le> n \<and> n \<le> 222 \<and> n \<noteq> 215)
         then char_of (n + 32) else c)"

definition py_lower :: "string \<Rightarrow> string" where
  "py_lower s = map lower_char s"

text \<open>
  \<^verbatim>\<open>s.replace(old, new)\<close>: the occurrences of \<open>old\<close> are taken from the left and do not
  overlap. With an empty \<open>old\<close> Python puts \<open>new\<close> before every character and at the end.
\<close>

function py_replace :: "string \<Rightarrow> string \<Rightarrow> string \<Rightarrow> string" where
  "py_replace old new s =
     (if s = [] then (if old = [] then new else [])
      else if old = [] then new @ hd s # py_replace old new (tl s)
      else if prefix old s then new @ py_replace old new (drop (length old) s)
      else hd s # py_replace old new (tl s))"
  by pat_completeness auto
termination
  by (relation "measure (\<lambda>(old, new, s). length s)") auto

text \<open>The membership test \<^verbatim>\<open>sub in x\<close> with a \<^verbatim>\<open>str\<close> on the left.\<close>

fun py_in :: "string \<Rightarrow> pyval \<Rightarrow> pyexc + bool" where
  "py_in sub (PStr s) = Inr (sublist sub s)"
| "py_in sub (PList xs) = Inr (PStr sub \<in> set xs)"
| "py_in sub (PDict d) = Inr (dict_has d sub)"
| "py_in sub v = Inl (TypeError (''argument of type '' @ [CHR 0x27] @ py_typename v @ [CHR 0x27] @ '' is not iterable''))"

text \<open>\<^verbatim>\<open>x.replace(old, new)\<close> on an arbitrary object: only a \<^verbatim>\<open>str\<close> has the method.\<close>

fun py_replace_method :: "pyval \<Rightarrow> string \<Rightarrow> string \<Rightarrow> pyexc + pyval" where
  "py_replace_method (PStr s) old new = Inr (PStr (py_replace old new s))"
| "py_replace_method v old new =
     Inl (AttributeError ([CHR 0x27] @ py_typename v @ [CHR 0x27] @ '' object has no attribute '' @ [CHR 0x27] @ ''replace'' @ [CHR 0x27]))"

section \<open>Helpers of the gateway\<close>

text \<open>
  \<^verbatim>\<open>re.sub(r'^"|"$', '', text)\<close>: the scan goes through the positions from the left. At a
  position the first alternative matches a double quote at the start of the string, the
  second one a double quote that ends the string or stands before a newline that ends it.
  A match is deleted and the scan goes on behind it. The flag says whether the position is
  the start of the string.
\<close>

fun re_sub_quotes :: "bool \<Rightarrow> string \<Rightarrow> string" where
  "re_sub_quotes at_start [] = []"
| "re_sub_quotes at_start (c # cs) =
     (if c = dq \<and> (at_start \<or> cs = [] \<or> cs = [nl])
      then re_sub_quotes False cs
      else c # re_sub_quotes False cs)"

text \<open>\<^verbatim>\<open>clean_token\<close> (lines 57 to 63), on whatever object the caller passes.\<close>

fun clean_token :: "pyval \<Rightarrow> pyexc + string" where
  "clean_token (PStr text) =
     (if text = [] then Inr []
      else Inr (py_replace [bsl, dq] [dq]
             (re_sub_quotes True
               (py_replace [bsl, CHR ''t''] [tab] (py_replace [bsl, CHR ''n''] [nl] text)))))"
| "clean_token v =
     (if \<not> py_truthy v then Inr []
      else Inl (AttributeError ([CHR 0x27] @ py_typename v @ [CHR 0x27] @ '' object has no attribute '' @ [CHR 0x27] @ ''replace'' @ [CHR 0x27])))"

text \<open>\<^verbatim>\<open>str_to_bool\<close> (lines 52 to 55). \<^verbatim>\<open>str(val).lower()\<close> is one of the four words
  for a string that is one of them up to case, for \<^verbatim>\<open>True\<close> (\<^verbatim>\<open>'True'\<close>) and for the
  integer 1 (\<^verbatim>\<open>'1'\<close>); the text of a float has a point, an exponent or letters other
  than these words, the text of a list or dict starts with a bracket.\<close>

fun str_to_bool :: "pyval \<Rightarrow> bool" where
  "str_to_bool (PStr s) =
     (s \<noteq> [] \<and> py_lower s \<in> set [''true'', ''1'', ''on'', ''yes''])"
| "str_to_bool (PBool b) = b"
| "str_to_bool (PInt i) = (i = 1)"
| "str_to_bool v = False"

text \<open>\<^verbatim>\<open>MODEL_MAP\<close> (lines 26 to 44).\<close>

definition MODEL_MAP :: "(string \<times> string) list" where
  "MODEL_MAP =
     [(''1'', ''kyvex''),
      (''2'', ''claude-sonnet-4.5''),
      (''3'', ''gpt-5''),
      (''4'', ''gemini-2.5-pro''),
      (''5'', ''grok-4''),
      (''6'', ''gemini-imagen-4''),
      (''kyvex'', ''kyvex''),
      (''claude'', ''claude-sonnet-4.5''),
      (''sonnet'', ''claude-sonnet-4.5''),
      (''gpt5'', ''gpt-5''),
      (''gpt-5'', ''gpt-5''),
      (''gemini'', ''gemini-2.5-pro''),
      (''grok'', ''grok-4''),
      (''imagen'', ''gemini-imagen-4''),
      (''default'', ''kyvex'')]"

text \<open>
  Lines 193 and 194: \<^verbatim>\<open>params.get('model', 'kyvex').lower()\<close>, then
  \<^verbatim>\<open>MODEL_MAP.get(model_input, model_input)\<close>. Only a \<^verbatim>\<open>str\<close> has \<^verbatim>\<open>lower\<close>.
\<close>

definition model_input :: "(string \<times> pyval) list \<Rightarrow> pyexc + string" where
  "model_input params =
     (case dict_get_default params ''model'' (PStr ''kyvex'') of
        PStr s \<Rightarrow> Inr (py_lower s)
      | v \<Rightarrow> Inl (AttributeError ([CHR 0x27] @ py_typename v @ [CHR 0x27] @ '' object has no attribute '' @ [CHR 0x27] @ ''lower'' @ [CHR 0x27])))"

definition resolve_model :: "string \<Rightarrow> string" where
  "resolve_model inp = (case map_of MODEL_MAP inp of None \<Rightarrow> inp | Some m \<Rightarrow> m)"

definition selected_model :: "(string \<times> pyval) list \<Rightarrow> pyexc + string" where
  "selected_model params =
     (case model_input params of Inl e \<Rightarrow> Inl e | Inr inp \<Rightarrow> Inr (resolve_model inp))"

section \<open>Media references\<close>

definition image_ref :: "string \<Rightarrow> pyval \<Rightarrow> pyval" where
  "image_ref kind data = PDict [(''type'', PStr kind), (''data'', data)]"

text \<open>The class \<^verbatim>\<open>[A-Za-z0-9+/=]\<close>.\<close>

definition is_b64 :: "char \<Rightarrow> bool" where
  "is_b64 c =
     (let n = (of_char c :: nat)
      in (65 \<le> n \<and> n \<le> 90) \<or> (97 \<le> n \<and> n \<le> 122) \<or> (48 \<le> n \<and> n \<le> 57)
         \<or> n = 43 \<or> n = 47 \<or> n = 61)"

text \<open>
  \<^verbatim>\<open>re.search(r"base64,([A-Za-z0-9+/=]+)", chunk)\<close>, giving \<^verbatim>\<open>group(1)\<close>: the leftmost
  position where the marker stands before at least one character of the class; the group
  is the longest run of such characters there.
\<close>

fun search_b64 :: "string \<Rightarrow> string option" where
  "search_b64 [] = None"
| "search_b64 (c # cs) =
     (if prefix ''base64,'' (c # cs) \<and> takeWhile is_b64 (drop 7 (c # cs)) \<noteq> []
      then Some (takeWhile is_b64 (drop 7 (c # cs)))
      else search_b64 cs)"

text \<open>The class \<^verbatim>\<open>[^\s\'\")]\<close>.\<close>

definition url_char :: "char \<Rightarrow> bool" where
  "url_char c = (\<not> py_isspace c \<and> c \<noteq> CHR 0x27 \<and> c \<noteq> dq \<and> c \<noteq> CHR 0x29)"

text \<open>\<^verbatim>\<open>re.search(r'(https://[^\s\'\")]+)', chunk)\<close>, giving \<^verbatim>\<open>group(1)\<close>.\<close>

fun search_url :: "string \<Rightarrow> string option" where
  "search_url [] = None"
| "search_url (c # cs) =
     (if prefix ''https://'' (c # cs) \<and> takeWhile url_char (drop 8 (c # cs)) \<noteq> []
      then Some (''https://'' @ takeWhile url_char (drop 8 (c # cs)))
      else search_url cs)"

text \<open>The test of line 142 on the matched URL.\<close>

definition url_is_image :: "string \<Rightarrow> bool" where
  "url_is_image u =
     (sublist ''api/files'' u \<or> suffix ''.png'' (py_lower u) \<or> suffix ''.jpg'' (py_lower u)
      \<or> suffix ''.jpeg'' (py_lower u))"

text \<open>The references that the two pattern scans of lines 137 to 143 append.\<close>

definition regex_fallback :: "string \<Rightarrow> pyval list" where
  "regex_fallback chunk =
     (case search_b64 chunk of None \<Rightarrow> [] | Some r \<Rightarrow> [image_ref ''base64'' (PStr r)]) @
     (case search_url chunk of
        None \<Rightarrow> []
      | Some u \<Rightarrow> if url_is_image u then [image_ref ''url'' (PStr u)] else [])"

section \<open>The upstream\<close>

text \<open>
  \<^verbatim>\<open>json.loads\<close> is a parameter \<open>loads\<close> of the model, and so is the upstream:
  \<open>post payload\<close> is what \<^verbatim>\<open>requests.post\<close> does with the payload. It raises, or gives a
  response with a status code, a body text and the items that \<^verbatim>\<open>iter_lines\<close> yields: a
  line, or an exception raised while reading.
\<close>

type_synonym loads_fn = "string \<Rightarrow> pyexc + pyval"

datatype stream_item = Line string | ReadFault pyexc

datatype upstream = ConnectFault pyexc | Resp int string "stream_item list"

type_synonym post_fn = "pyval \<Rightarrow> upstream"

definition failure_message :: "pyval \<Rightarrow> pyval" where
  "failure_message m = PDict [(''success'', PBool False), (''message'', m)]"

definition failure_status :: "int \<Rightarrow> string \<Rightarrow> pyval" where
  "failure_status code body =
     PDict [(''success'', PBool False), (''error_code'', PInt code), (''message'', PStr (take 300 body))]"

section \<open>The handler of the image model\<close>

text \<open>Lines 115 and 116.\<close>

definition imagen_frame :: "string \<Rightarrow> string" where
  "imagen_frame raw_line =
     (let content = py_strip raw_line
      in if prefix ''data:'' content then py_strip (drop 5 content) else content)"

text \<open>Lines 123 to 130, on the decoded value: the chunk and the image list.\<close>

fun imagen_data :: "pyval \<Rightarrow> string \<Rightarrow> pyval list \<Rightarrow> pyval \<times> pyval list" where
  "imagen_data (PDict d) content images =
     ((if dict_has d ''token'' then dict_get d ''token''
       else if dict_has d ''content'' then dict_get d ''content''
       else PStr content),
      images
        @ (if py_truthy (dict_get d ''imageUrl'') then [image_ref ''url'' (dict_get d ''imageUrl'')] else [])
        @ (if py_truthy (dict_get d ''imageBase64'') then [image_ref ''base64'' (dict_get d ''imageBase64'')] else []))"
| "imagen_data v content images = (PStr content, images)"

text \<open>Lines 119 to 134: the inner \<^verbatim>\<open>try\<close>, whose bare \<^verbatim>\<open>except\<close> keeps the line's text.\<close>

definition imagen_decode :: "loads_fn \<Rightarrow> string \<Rightarrow> pyval list \<Rightarrow> pyval \<times> pyval list" where
  "imagen_decode loads content images =
     (if prefix ''{'' content \<or> prefix ''['' content then
        (case loads content of
           Inl e \<Rightarrow> (PStr content, images)
         | Inr data \<Rightarrow> imagen_data data content images)
      else if prefix [dq] content \<and> suffix [dq] content then
        (case loads content of
           Inl e \<Rightarrow> (PStr content, images)
         | Inr data \<Rightarrow> (data, images))
      else (PStr content, images))"

text \<open>Lines 137 to 145. \<^verbatim>\<open>re.search\<close> raises on a chunk that is not a \<^verbatim>\<open>str\<close>.\<close>

fun imagen_scan :: "pyval \<Rightarrow> string \<Rightarrow> pyval list \<Rightarrow> pyexc + (string \<times> pyval list)" where
  "imagen_scan (PStr chunk) full_response images =
     (case clean_token (PStr chunk) of
        Inl e \<Rightarrow> Inl e
      | Inr token \<Rightarrow> Inr (full_response @ token, images @ regex_fallback chunk))"
| "imagen_scan v full_response images =
     Inl (TypeError (''expected string or bytes-like object, got '' @ [CHR 0x27] @ py_typename v @ [CHR 0x27]))"

definition imagen_event :: "loads_fn \<Rightarrow> string \<Rightarrow> string \<times> pyval list \<Rightarrow> pyexc + (string \<times> pyval list)" where
  "imagen_event loads content st =
     (case imagen_decode loads content (snd st) of
        (chunk, images) \<Rightarrow> imagen_scan chunk (fst st) images)"

text \<open>The loop of lines 112 to 145 over the items of the stream.\<close>

fun imagen_lines :: "loads_fn \<Rightarrow> stream_item list \<Rightarrow> string \<times> pyval list \<Rightarrow> pyexc + (string \<times> pyval list)" where
  "imagen_lines loads [] st = Inr st"
| "imagen_lines loads (ReadFault e # rest) st = Inl e"
| "imagen_lines loads (Line raw_line # rest) st =
     (if raw_line = [] then imagen_lines loads rest st
      else if imagen_frame raw_line = ''[DONE]'' then Inr st
      else (case imagen_event loads (imagen_frame raw_line) st of
              Inl e \<Rightarrow> Inl e
            | Inr st' \<Rightarrow> imagen_lines loads rest st'))"

definition imagen_payload :: "(string \<times> pyval) list \<Rightarrow> pyval" where
  "imagen_payload params =
     PDict [(''model'', PStr ''gemini-imagen-4''),
            (''prompt'', dict_get_default params ''prompt'' (PStr [])),
            (''webSearch'', PBool False),
            (''generateImage'', PBool True),
            (''reasoning'', PBool False),
            (''files'', PList []),
            (''inputAudio'', PStr []),
            (''autoRoute'', PBool False)]"

definition imagen_success :: "string \<Rightarrow> pyval list \<Rightarrow> pyval" where
  "imagen_success full_response images =
     PDict [(''success'', PBool True),
            (''meta'', PDict [(''model'', PStr ''gemini-imagen-4''),
                              (''web_search'', PBool False),
                              (''generated_image'', PBool True),
                              (''reasoning'', PBool False)]),
            (''response'', PStr (py_strip full_response)),
            (''thought'', PStr []),
            (''images'', PList images)]"

text \<open>\<^verbatim>\<open>process_imagen_specific\<close> (lines 65 to 161).\<close>

definition process_imagen_specific :: "loads_fn \<Rightarrow> post_fn \<Rightarrow> (string \<times> pyval) list \<Rightarrow> pyval" where
  "process_imagen_specific loads post params =
     (case post (imagen_payload params) of
        ConnectFault e \<Rightarrow> failure_message (PStr (exc_str e))
      | Resp status body items \<Rightarrow>
          if status \<noteq> 200 then failure_status status body
          else (case imagen_lines loads items ([], []) of
                  Inl e \<Rightarrow> failure_message (PStr (exc_str e))
                | Inr st \<Rightarrow> imagen_success (fst st) (snd st)))"

section \<open>The main handler\<close>

datatype mode = ModeResponse | ModeThink

record agg_state =
  full_response :: string
  full_thought :: string
  images :: "pyval list"
  current_mode :: mode

text \<open>What the body of the loop does: it raises, it returns a result, or the loop goes on.\<close>

datatype 'a flow = Raised pyexc | Returned pyval | Go 'a

text \<open>One of the two \<^verbatim>\<open>if\<close> statements of lines 264 to 269, on the content and the mode.\<close>

definition strip_tag :: "string \<Rightarrow> mode \<Rightarrow> pyval \<times> mode \<Rightarrow> pyexc + (pyval \<times> mode)" where
  "strip_tag tag new_mode cm =
     (case py_in tag (fst cm) of
        Inl e \<Rightarrow> Inl e
      | Inr found \<Rightarrow>
          if found then
            (case py_replace_method (fst cm) tag [] of
               Inl e \<Rightarrow> Inl e
             | Inr content \<Rightarrow> Inr (content, new_mode))
          else Inr cm)"

definition think_tags :: "pyval \<Rightarrow> mode \<Rightarrow> pyexc + (pyval \<times> mode)" where
  "think_tags content m =
     (case strip_tag ''<think>'' ModeThink (content, m) of
        Inl e \<Rightarrow> Inl e
      | Inr cm \<Rightarrow> strip_tag ''</think>'' ModeResponse cm)"

text \<open>Lines 251 to 255.\<close>

definition event_content :: "(string \<times> pyval) list \<Rightarrow> pyval" where
  "event_content d =
     (if dict_get d ''token'' \<noteq> PNone then dict_get d ''token''
      else if is_str (dict_get d ''content'') then dict_get d ''content''
      else PStr [])"

text \<open>Lines 258 to 261.\<close>

definition event_images :: "(string \<times> pyval) list \<Rightarrow> pyval list" where
  "event_images d =
     (if py_truthy (dict_get d ''imageBase64'') then [image_ref ''base64'' (dict_get d ''imageBase64'')] else [])
     @ (if py_truthy (dict_get d ''imageUrl'') then [image_ref ''url'' (dict_get d ''imageUrl'')] else [])"

text \<open>Lines 273 to 276.\<close>

definition append_token :: "mode \<Rightarrow> string \<Rightarrow> agg_state \<Rightarrow> agg_state" where
  "append_token m token st =
     (if m = ModeThink
      then st\<lparr>full_thought := full_thought st @ token, current_mode := m\<rparr>
      else st\<lparr>full_response := full_response st @ token, current_mode := m\<rparr>)"

text \<open>Lines 246 to 276: a decoded object.\<close>

definition main_dict :: "(string \<times> pyval) list \<Rightarrow> agg_state \<Rightarrow> agg_state flow" where
  "main_dict d st =
     (if dict_get d ''status'' = PStr ''error''
      then Returned (failure_message (py_or (dict_get d ''message'') (PStr ''Unknown upstream error'')))
      else (case think_tags (event_content d) (current_mode st) of
              Inl e \<Rightarrow> Raised e
            | Inr cm \<Rightarrow>
                (case clean_token (fst cm) of
                   Inl e \<Rightarrow> Raised e
                 | Inr token \<Rightarrow>
                     Go (append_token (snd cm) token (st\<lparr>images := images st @ event_images d\<rparr>)))))"

text \<open>Lines 245 to 280: a decoded value of any shape.\<close>

fun main_event :: "pyval \<Rightarrow> agg_state \<Rightarrow> agg_state flow" where
  "main_event (PDict d) st = main_dict d st"
| "main_event (PStr s) st =
     (case clean_token (PStr s) of
        Inl e \<Rightarrow> Raised e
      | Inr token \<Rightarrow> Go (st\<lparr>full_response := full_response st @ token\<rparr>))"
| "main_event v st = Go st"

text \<open>Line 236.\<close>

definition main_frame :: "string \<Rightarrow> string" where
  "main_frame line = (if prefix ''data:'' line then py_strip (drop 5 line) else line)"

fun is_decode_error :: "pyexc \<Rightarrow> bool" where
  "is_decode_error (JSONDecodeError m) = True"
| "is_decode_error e = False"

text \<open>The loop of lines 233 to 280 over the items of the stream.\<close>

fun main_lines :: "loads_fn \<Rightarrow> stream_item list \<Rightarrow> agg_state \<Rightarrow> agg_state flow" where
  "main_lines loads [] st = Go st"
| "main_lines loads (ReadFault e # rest) st = Raised e"
| "main_lines loads (Line raw_line # rest) st =
     (if py_strip raw_line = [] \<or> prefix '':'' (py_strip raw_line) then main_lines loads rest st
      else if main_frame (py_strip raw_line) = ''[DONE]'' then Go st
      else (case loads (main_frame (py_strip raw_line)) of
              Inl e \<Rightarrow> if is_decode_error e then main_lines loads rest st else Raised e
            | Inr data \<Rightarrow>
                (case main_event data st of
                   Raised e \<Rightarrow> Raised e
                 | Returned r \<Rightarrow> Returned r
                 | Go st' \<Rightarrow> main_lines loads rest st')))"

definition initial_state :: agg_state where
  "initial_state = \<lparr>full_response = [], full_thought = [], images = [], current_mode = ModeResponse\<rparr>"

text \<open>Lines 205 to 214. The model here is never the image model (line 198), so line 203 does not run.\<close>

definition main_payload :: "(string \<times> pyval) list \<Rightarrow> string \<Rightarrow> (string \<times> pyval) list" where
  "main_payload params model =
     [(''prompt'', dict_get_default params ''prompt'' (PStr [])),
      (''model'', PStr model),
      (''webSearch'', PBool (str_to_bool (dict_get_default params ''web'' (PBool False)))),
      (''generateImage'', PBool (str_to_bool (dict_get_default params ''image'' (PBool False)))),
      (''reasoning'', PBool (str_to_bool (dict_get_default params ''reasoning'' (PBool False)))),
      (''autoRoute'', PBool (str_to_bool (dict_get_default params ''auto'' (PBool False)))),
      (''inputAudio'', PStr []),
      (''files'', PList [])]"

text \<open>Lines 285 to 296.\<close>

definition main_success :: "(string \<times> pyval) list \<Rightarrow> string \<Rightarrow> agg_state \<Rightarrow> pyval" where
  "main_success payload model st =
     PDict [(''success'', PBool True),
            (''meta'', PDict [(''model'', PStr model),
                              (''web_search'', dict_get payload ''webSearch''),
                              (''generated_image'', dict_get payload ''generateImage''),
                              (''reasoning'', dict_get payload ''reasoning'')]),
            (''response'', PStr (py_strip (full_response st))),
            (''thought'', PStr (py_strip (full_thought st))),
            (''images'', PList (images st))]"

text \<open>Lines 216 to 296: the request to the upstream and the aggregation of its stream.\<close>

definition aggregate :: "loads_fn \<Rightarrow> post_fn \<Rightarrow> (string \<times> pyval) list \<Rightarrow> string \<Rightarrow> pyval" where
  "aggregate loads post params model =
     (case post (PDict (main_payload params model)) of
        ConnectFault e \<Rightarrow> failure_message (PStr (exc_str e))
      | Resp status body items \<Rightarrow>
          if status \<noteq> 200 then failure_status status body
          else (case main_lines loads items initial_state of
                  Raised e \<Rightarrow> failure_message (PStr (exc_str e))
                | Returned r \<Rightarrow> r
                | Go st \<Rightarrow> main_success (main_payload params model) model st))"

text \<open>
  \<^verbatim>\<open>process_kyvex_request\<close> (lines 166 to 296). Lines 193 and 194 stand before the
  \<^verbatim>\<open>try\<close>: what they raise leaves the function (\<open>Inl\<close>).
\<close>

definition process_kyvex_request :: "loads_fn \<Rightarrow> post_fn \<Rightarrow> (string \<times> pyval) list \<Rightarrow> pyexc + pyval" where
  "process_kyvex_request loads post params =
     (case selected_model params of
        Inl e \<Rightarrow> Inl e
      | Inr model \<Rightarrow>
          if model = ''gemini-imagen-4'' then Inr (process_imagen_specific loads post params)
          else Inr (aggregate loads post params model))"

section \<open>A decoder for closed instances\<close>

text \<open>
  The theorems below hold for every decoder \<open>loads\<close>. Their instances at concrete lines
  use this decoder of a fragment of JSON: objects, arrays, strings with the two-character
  escapes, integers, \<^verbatim>\<open>true\<close>, \<^verbatim>\<open>false\<close> and \<^verbatim>\<open>null\<close>. It raises \<^verbatim>\<open>JSONDecodeError\<close> on
  every text outside the fragment. The first argument of the three parsing functions
  bounds the number of calls; \<open>json_loads\<close> gives them more than the text can use.
\<close>

definition json_ws :: "char \<Rightarrow> bool" where
  "json_ws c = (c = CHR 0x20 \<or> c = tab \<or> c = nl \<or> c = CHR 0x0D)"

definition json_unescape :: "char \<Rightarrow> char option" where
  "json_unescape e =
     (if e = dq then Some dq
      else if e = bsl then Some bsl
      else if e = CHR ''/'' then Some (CHR ''/'')
      else if e = CHR ''n'' then Some nl
      else if e = CHR ''t'' then Some tab
      else if e = CHR ''r'' then Some (CHR 0x0D)
      else if e = CHR ''b'' then Some (CHR 0x08)
      else if e = CHR ''f'' then Some (CHR 0x0C)
      else None)"

text \<open>The characters behind an opening quote: the string's text and what follows it.\<close>

fun json_string :: "string \<Rightarrow> (string \<times> string) option" where
  "json_string [] = None"
| "json_string [c] = (if c = dq then Some ([], []) else None)"
| "json_string (c # e # cs) =
     (if c = dq then Some ([], e # cs)
      else if (of_char c :: nat) < 32 then None
      else if c = bsl then
        (case json_unescape e of
           None \<Rightarrow> None
         | Some x \<Rightarrow> map_option (\<lambda>(t, r). (x # t, r)) (json_string cs))
      else map_option (\<lambda>(t, r). (c # t, r)) (json_string (e # cs)))"

definition is_digit :: "char \<Rightarrow> bool" where
  "is_digit c = (48 \<le> (of_char c :: nat) \<and> (of_char c :: nat) \<le> 57)"

definition digits_value :: "string \<Rightarrow> int" where
  "digits_value ds = foldl (\<lambda>a c. 10 * a + (of_char c - 48)) 0 ds"

definition json_int :: "string \<Rightarrow> (pyval \<times> string) option" where
  "json_int s =
     (let body = (if prefix ''-'' s then tl s else s);
          ds = takeWhile is_digit body;
          rest = dropWhile is_digit body
      in if ds = [] then None
         else if 1 < length ds \<and> hd ds = CHR ''0'' then None
         else if prefix ''.'' rest \<or> prefix ''e'' rest \<or> prefix ''E'' rest then None
         else Some (PInt (if prefix ''-'' s then - digits_value ds else digits_value ds), rest))"

fun json_value :: "nat \<Rightarrow> string \<Rightarrow> (pyval \<times> string) option"
and json_elems :: "nat \<Rightarrow> string \<Rightarrow> pyval list \<Rightarrow> (pyval \<times> string) option"
and json_members :: "nat \<Rightarrow> string \<Rightarrow> (string \<times> pyval) list \<Rightarrow> (pyval \<times> string) option"
where
  "json_value 0 s = None"
| "json_value (Suc n) s =
     (case dropWhile json_ws s of
        [] \<Rightarrow> None
      | c # cs \<Rightarrow>
          if c = CHR ''{'' then
            (if prefix ''}'' (dropWhile json_ws cs) then Some (PDict [], tl (dropWhile json_ws cs))
             else json_members n cs [])
          else if c = CHR ''['' then
            (if prefix '']'' (dropWhile json_ws cs) then Some (PList [], tl (dropWhile json_ws cs))
             else json_elems n cs [])
          else if c = dq then map_option (\<lambda>(t, r). (PStr t, r)) (json_string cs)
          else if prefix ''true'' (c # cs) then Some (PBool True, drop 4 (c # cs))
          else if prefix ''false'' (c # cs) then Some (PBool False, drop 5 (c # cs))
          else if prefix ''null'' (c # cs) then Some (PNone, drop 4 (c # cs))
          else json_int (c # cs))"
| "json_elems 0 s acc = None"
| "json_elems (Suc n) s acc =
     (case json_value n s of
        None \<Rightarrow> None
      | Some (v, r) \<Rightarrow>
          if prefix '','' (dropWhile json_ws r) then json_elems n (tl (dropWhile json_ws r)) (acc @ [v])
          else if prefix '']'' (dropWhile json_ws r) then Some (PList (acc @ [v]), tl (dropWhile json_ws r))
          else None)"
| "json_members 0 s acc = None"
| "json_members (Suc n) s acc =
     (if prefix [dq] (dropWhile json_ws s) then
        (case json_string (tl (dropWhile json_ws s)) of
           None \<Rightarrow> None
         | Some (k, r) \<Rightarrow>
             if prefix '':'' (dropWhile json_ws r) then
               (case json_value n (tl (dropWhile json_ws r)) of
                  None \<Rightarrow> None
                | Some (v, r') \<Rightarrow>
                    if prefix '','' (dropWhile json_ws r')
                    then json_members n (tl (dropWhile json_ws r')) (AList.update k v acc)
                    else if prefix ''}'' (dropWhile json_ws r')
                    then Some (PDict (AList.update k v acc), tl (dropWhile json_ws r'))
                    else None)
             else None)
      else None)"

definition json_loads :: loads_fn where
  "json_loads s =
     (case json_value (2 * length s + 2) s of
        None \<Rightarrow> Inl (JSONDecodeError ''Expecting value'')
      | Some (v, r) \<Rightarrow>
          if dropWhile json_ws r = [] then Inr v else Inl (JSONDecodeError ''Extra data''))"

text \<open>An upstream that answers every payload with status 200 and the given lines.\<close>

definition serve :: "string list \<Rightarrow> post_fn" where
  "serve ls payload = Resp 200 [] (map Line ls)"

section \<open>Vocabulary of the statements\<close>

text \<open>
  Step (b) of the normalizer read as two independent removals: a double quote that starts
  the text, and a double quote that ends it or stands before a newline that ends it.
\<close>

definition strip_leading_quote :: "string \<Rightarrow> string" where
  "strip_leading_quote s = (if prefix [dq] s then tl s else s)"

definition strip_trailing_quote :: "string \<Rightarrow> string" where
  "strip_trailing_quote s =
     (if s \<noteq> [] \<and> last s = dq then butlast s
      else if 2 \<le> length s \<and> last s = nl \<and> last (butlast s) = dq then butlast (butlast s) @ [nl]
      else s)"

text \<open>Two texts of which neither starts with the other.\<close>

definition apart :: "string \<Rightarrow> string \<Rightarrow> bool" where
  "apart old m = (\<not> prefix old m \<and> \<not> prefix m old)"

text \<open>The content after the first \<^verbatim>\<open>if\<close> of lines 264 to 266.\<close>

definition open_stripped :: "string \<Rightarrow> string" where
  "open_stripped f = (if sublist ''<think>'' f then py_replace ''<think>'' [] f else f)"

text \<open>A line that the framing of lines 234 to 237 passes to the decoder as it is.\<close>

definition plain_line :: "string \<Rightarrow> bool" where
  "plain_line l =
     (py_strip l = l \<and> l \<noteq> [] \<and> \<not> prefix '':'' l \<and> main_frame l = l \<and> l \<noteq> ''[DONE]'')"

text \<open>
  The two result shapes: a success carries the two texts and the images and no message, a
  failure carries a message and none of the three.
\<close>

definition success_shape :: "pyval \<Rightarrow> bool" where
  "success_shape r =
     (case r of
        PDict d \<Rightarrow> dict_get d ''success'' = PBool True \<and> dict_has d ''response'' \<and>
                   dict_has d ''thought'' \<and> dict_has d ''images'' \<and> \<not> dict_has d ''message''
      | _ \<Rightarrow> False)"

definition failure_shape :: "pyval \<Rightarrow> bool" where
  "failure_shape r =
     (case r of
        PDict d \<Rightarrow> dict_get d ''success'' = PBool False \<and> dict_has d ''message'' \<and>
                   \<not> dict_has d ''response'' \<and> \<not> dict_has d ''thought'' \<and> \<not> dict_has d ''images''
      | _ \<Rightarrow> False)"

definition one_shape :: "pyval \<Rightarrow> bool" where
  "one_shape r = (success_shape r \<noteq> failure_shape r)"

text \<open>
  The two patterns of lines 137 and 141 tried at the start of a text, and the leftmost
  position of a text where such a trial succeeds: what \<^verbatim>\<open>re.search\<close> means.
\<close>

definition b64_here :: "string \<Rightarrow> string option" where
  "b64_here s =
     (if prefix ''base64,'' s \<and> takeWhile is_b64 (drop 7 s) \<noteq> []
      then Some (takeWhile is_b64 (drop 7 s)) else None)"

definition url_here :: "string \<Rightarrow> string option" where
  "url_here s =
     (if prefix ''https://'' s \<and> takeWhile url_char (drop 8 s) \<noteq> []
      then Some (''https://'' @ takeWhile url_char (drop 8 s)) else None)"

fun first_match :: "(string \<Rightarrow> string option) \<Rightarrow> string \<Rightarrow> string option" where
  "first_match f [] = None"
| "first_match f (x # xs) = (case f (x # xs) of Some r \<Rightarrow> Some r | None \<Rightarrow> first_match f xs)"

text \<open>The chunk (lines 124 and 125) and the structured references (lines 127 to 130) of a decoded object.\<close>

definition imagen_chunk :: "(string \<times> pyval) list \<Rightarrow> string \<Rightarrow> pyval" where
  "imagen_chunk d content =
     (if dict_has d ''token'' then dict_get d ''token''
      else if dict_has d ''content'' then dict_get d ''content''
      else PStr content)"

definition imagen_structured :: "(string \<times> pyval) list \<Rightarrow> pyval list" where
  "imagen_structured d =
     (if py_truthy (dict_get d ''imageUrl'') then [image_ref ''url'' (dict_get d ''imageUrl'')] else [])
     @ (if py_truthy (dict_get d ''imageBase64'') then [image_ref ''base64'' (dict_get d ''imageBase64'')] else [])"

section \<open>Facts about the library operations\<close>

lemma re_sub_quotes_inner: "re_sub_quotes False s = strip_trailing_quote s"
proof (induction s)
  case Nil
  show ?case by (simp add: strip_trailing_quote_def)
next
  case (Cons c cs)
  show ?case
  proof (cases cs)
    case Nil
    then show ?thesis by (simp add: strip_trailing_quote_def)
  next
    case (Cons x xs)
    note outer = this
    show ?thesis
    proof (cases xs)
      case Nil
      with outer show ?thesis by (simp add: strip_trailing_quote_def)
    next
      case (Cons y ys)
      with outer Cons.IH show ?thesis
        by (simp add: strip_trailing_quote_def)
    qed
  qed
qed

lemma re_sub_quotes_start: "re_sub_quotes True s = strip_trailing_quote (strip_leading_quote s)"
proof -
  have "re_sub_quotes True s = re_sub_quotes False (strip_leading_quote s)"
    by (cases s) (auto simp: strip_leading_quote_def)
  then show ?thesis by (simp add: re_sub_quotes_inner)
qed

declare py_replace.simps [simp del]

lemma py_replace_Nil: "py_replace old new [] = (if old = [] then new else [])"
  by (simp add: py_replace.simps)

lemma py_replace_hit:
  "old \<noteq> [] \<Longrightarrow> prefix old (c # cs) \<Longrightarrow>
   py_replace old new (c # cs) = new @ py_replace old new (drop (length old) (c # cs))"
  by (subst py_replace.simps) simp

lemma py_replace_miss:
  "old \<noteq> [] \<Longrightarrow> \<not> prefix old (c # cs) \<Longrightarrow> py_replace old new (c # cs) = c # py_replace old new cs"
  by (subst py_replace.simps) simp

lemma apart_append: "apart old m \<Longrightarrow> \<not> prefix old (m @ r)"
  unfolding apart_def by (metis prefix_append prefix_def)

text \<open>
  A block \<open>m\<close> in which no occurrence of \<open>old\<close> can start is copied by the replacement, and
  when moreover no occurrence of \<open>old\<close> can run into the start of \<open>m\<close>, every text that
  contains \<open>m\<close> still contains it after the replacement.
\<close>

lemma py_replace_keeps_block:
  assumes "\<forall>t. suffix t m \<and> t \<noteq> [] \<longrightarrow> apart old t"
  shows "py_replace old new (m @ r) = m @ py_replace old new r"
  using assms
proof (induction m)
  case Nil
  show ?case by simp
next
  case (Cons c m)
  have ne: "old \<noteq> []" using Cons.prems[rule_format, of "c # m"] by (auto simp: apart_def)
  have "apart old (c # m)" using Cons.prems by (simp add: suffix_order.refl)
  then have miss: "\<not> prefix old (c # (m @ r))" using apart_append[of old "c # m" r] by simp
  have "\<forall>t. suffix t m \<and> t \<noteq> [] \<longrightarrow> apart old t"
    using Cons.prems by (simp add: suffix_Cons)
  then have "py_replace old new (m @ r) = m @ py_replace old new r" by (rule Cons.IH)
  then show ?case using py_replace_miss[OF ne miss] by simp
qed

lemma py_replace_keeps_sublist:
  assumes inner: "\<forall>t. suffix t m \<and> t \<noteq> [] \<longrightarrow> apart old t"
      and left: "\<forall>t. suffix t old \<and> t \<noteq> [] \<longrightarrow> apart t m"
      and ne: "m \<noteq> []"
  shows "sublist m s \<Longrightarrow> sublist m (py_replace old new s)"
proof (induction s rule: length_induct)
  case (1 s)
  from "1.prems" obtain p r where s: "s = p @ m @ r" by (auto simp: sublist_def)
  have old_ne: "old \<noteq> []" using inner[rule_format, of m] ne by (auto simp: apart_def)
  show ?case
  proof (cases p)
    case Nil
    then show ?thesis using s py_replace_keeps_block[OF inner] by simp
  next
    case (Cons c p')
    show ?thesis
    proof (cases "prefix old s")
      case False
      have "sublist m (p' @ m @ r)" by simp
      moreover have "length (p' @ m @ r) < length s" using s Cons by simp
      ultimately have "sublist m (py_replace old new (p' @ m @ r))" using "1.IH" by blast
      moreover have "py_replace old new s = c # py_replace old new (p' @ m @ r)"
        using False s Cons py_replace_miss[OF old_ne, of c "p' @ m @ r"] by simp
      ultimately show ?thesis by (simp add: sublist_Cons_right)
    next
      case True
      have long: "length p \<ge> length old"
      proof (rule ccontr)
        assume "\<not> length p \<ge> length old"
        then have lt: "length p < length old" by simp
        from True obtain z where z: "s = old @ z" by (auto simp: prefix_def)
        have "drop (length p) old @ z = m @ r"
          using z s lt by (metis append_eq_conv_conj drop_append less_imp_le_nat diff_is_0_eq' drop0 append.assoc)
        then have "prefix (drop (length p) old) m \<or> prefix m (drop (length p) old)"
          by (metis prefix_def prefix_same_cases)
        moreover have "suffix (drop (length p) old) old" by (simp add: suffix_drop)
        moreover have "drop (length p) old \<noteq> []" using lt by simp
        ultimately show False using left unfolding apart_def by blast
      qed
      then have d: "drop (length old) s = drop (length old) p @ m @ r" using s by simp
      have "length (drop (length old) s) < length s" using old_ne s Cons by simp
      moreover have "sublist m (drop (length old) s)" using d by simp
      ultimately have "sublist m (py_replace old new (drop (length old) s))" using "1.IH" by blast
      moreover have "py_replace old new s = new @ py_replace old new (drop (length old) s)"
        using True s Cons py_replace_hit[OF old_ne, of c "p' @ m @ r"] by simp
      ultimately show ?thesis by (simp add: sublist_append)
    qed
  qed
qed

section \<open>The token normalizer\<close>

text \<open>
  Claim C4 says that the normalizer strips the two quotes only when both are present.
  The pattern of line 61 is an alternation, and each alternative is deleted wherever it
  matches: a quote at one end alone is removed.
\<close>

theorem clean_token_one_quote_counterexample:
  \<open>clean_token (PStr ''"a'') = Inr ''a'' \<and> clean_token (PStr ''a"'') = Inr ''a''\<close>
  by code_simp

text \<open>
  Claim C4, amended: the normalizer is total on strings and on \<^verbatim>\<open>None\<close>, gives the empty
  string for both empty inputs, and on a string applies, in this order: the replacement
  of the two-character sequences backslash-n and backslash-t by a newline and a tab, the
  removal of a leading double quote if there is one and, independently, of a trailing
  double quote if there is one (trailing: at the very end, or before a newline that ends
  the text), and the replacement of backslash-quote by a quote.
\<close>

theorem clean_token_steps:
  "clean_token PNone = Inr [] \<and>
   clean_token (PStr []) = Inr [] \<and>
   clean_token (PStr s) =
     Inr (py_replace [bsl, dq] [dq]
           (strip_trailing_quote
             (strip_leading_quote
               (py_replace [bsl, CHR ''t''] [tab] (py_replace [bsl, CHR ''n''] [nl] s)))))"
proof -
  have "clean_token (PStr s) =
     Inr (py_replace [bsl, dq] [dq]
           (re_sub_quotes True
               (py_replace [bsl, CHR ''t''] [tab] (py_replace [bsl, CHR ''n''] [nl] s))))"
    by (cases s) (simp_all add: py_replace_Nil)
  then show ?thesis by (simp add: re_sub_quotes_start)
qed

theorem clean_token_steps_witness:
  \<open>clean_token (PStr (''"say '' @ [bsl] @ ''"hi'' @ [bsl] @ ''""'')) = Inr ''say "hi"''
   \<and> clean_token PNone = Inr []\<close>
proof -
  let ?s = \<open>''"say '' @ [bsl] @ ''"hi'' @ [bsl] @ ''""''\<close>
  have steps: \<open>py_replace [bsl, dq] [dq]
           (strip_trailing_quote
             (strip_leading_quote
               (py_replace [bsl, CHR ''t''] [tab] (py_replace [bsl, CHR ''n''] [nl] ?s))))
        = ''say "hi"''\<close>
    by code_simp
  have "clean_token (PStr ?s) =
     Inr (py_replace [bsl, dq] [dq]
           (strip_trailing_quote
             (strip_leading_quote
               (py_replace [bsl, CHR ''t''] [tab] (py_replace [bsl, CHR ''n''] [nl] ?s)))))"
    using clean_token_steps[of ?s] by blast
  then have first: \<open>clean_token (PStr ?s) = Inr ''say "hi"''\<close>
    by (simp only: steps)
  have "clean_token PNone = Inr []"
    using clean_token_steps[of "[]"] by blast
  with first show ?thesis by blast
qed

section \<open>Model aliases\<close>

text \<open>
  Claim C5 says that an input the table does not match is passed on exactly as given.
  Line 193 lowers the input before the lookup, and line 194 falls back to the lowered
  text: \<^verbatim>\<open>Foo\<close> is not in the table and becomes \<^verbatim>\<open>foo\<close>.
\<close>

theorem unresolved_model_lowered_counterexample:
  "map_of MODEL_MAP (py_lower ''Foo'') = None \<and>
   selected_model [(''model'', PStr ''Foo'')] = Inr ''foo'' \<and>
   ''foo'' \<noteq> ''Foo''"
  by code_simp

text \<open>
  Claim C5, amended: for a model input that is a string, the resolution depends on the
  input only through its lower-case form (so it is case-insensitive); an input whose
  lower-case form is a key of the table resolves to the table's value, and every other
  input resolves to its lower-case form, hence to itself exactly when it has no capital.
\<close>

theorem model_resolution_lowercase:
  assumes "map_of params ''model'' = Some (PStr a)"
      and "map_of params' ''model'' = Some (PStr b)"
  shows "(py_lower a = py_lower b \<longrightarrow> selected_model params = selected_model params') \<and>
         (\<forall>m. map_of MODEL_MAP (py_lower a) = Some m \<longrightarrow> selected_model params = Inr m) \<and>
         (map_of MODEL_MAP (py_lower a) = None \<longrightarrow> selected_model params = Inr (py_lower a)) \<and>
         (map_of MODEL_MAP (py_lower a) = None \<longrightarrow> (selected_model params = Inr a) = (py_lower a = a))"
proof -
  have a: "selected_model params = Inr (resolve_model (py_lower a))"
    using assms(1) by (simp add: selected_model_def model_input_def dict_get_default_def)
  have b: "selected_model params' = Inr (resolve_model (py_lower b))"
    using assms(2) by (simp add: selected_model_def model_input_def dict_get_default_def)
  have c1: "py_lower a = py_lower b \<longrightarrow> selected_model params = selected_model params'"
    by (simp add: a b)
  have c2: "\<forall>m. map_of MODEL_MAP (py_lower a) = Some m \<longrightarrow> selected_model params = Inr m"
    by (simp add: a resolve_model_def)
  have c3: "map_of MODEL_MAP (py_lower a) = None \<longrightarrow> selected_model params = Inr (py_lower a)"
    by (simp add: a resolve_model_def)
  have c4: "map_of MODEL_MAP (py_lower a) = None \<longrightarrow> (selected_model params = Inr a) = (py_lower a = a)"
    by (simp add: a resolve_model_def)
  from c1 c2 c3 c4 show ?thesis by blast
qed

theorem model_resolution_lowercase_witness:
  "selected_model [(''prompt'', PStr ''hi''), (''model'', PStr ''Claude'')]
     = selected_model [(''model'', PStr ''CLAUDE'')] \<and>
   selected_model [(''prompt'', PStr ''hi''), (''model'', PStr ''Claude'')] = Inr ''claude-sonnet-4.5'' \<and>
   selected_model [(''model'', PStr ''Foo'')] = Inr ''foo'' \<and>
   selected_model [(''model'', PStr ''foo'')] = Inr ''foo''"
proof -
  have p1: "map_of [(''prompt'', PStr ''hi''), (''model'', PStr ''Claude'')] ''model'' = Some (PStr ''Claude'')"
    by simp
  have p2: "map_of [(''model'', PStr ''CLAUDE'')] ''model'' = Some (PStr ''CLAUDE'')"
    by simp
  have p3: "map_of [(''model'', PStr ''Foo'')] ''model'' = Some (PStr ''Foo'')"
    by simp
  have p4: "map_of [(''model'', PStr ''foo'')] ''model'' = Some (PStr ''foo'')"
    by simp
  have l1: "py_lower ''Claude'' = py_lower ''CLAUDE''" by code_simp
  have l2: "map_of MODEL_MAP (py_lower ''Claude'') = Some ''claude-sonnet-4.5''" by code_simp
  have l3: "map_of MODEL_MAP (py_lower ''Foo'') = None" by code_simp
  have l4: "py_lower ''Foo'' = ''foo''" by code_simp
  have l5: "map_of MODEL_MAP (py_lower ''foo'') = None" by code_simp
  have l6: "py_lower ''foo'' = ''foo''" by code_simp
  from model_resolution_lowercase[OF p1 p2] l1 l2
  have "selected_model [(''prompt'', PStr ''hi''), (''model'', PStr ''Claude'')]
          = selected_model [(''model'', PStr ''CLAUDE'')]"
   and "selected_model [(''prompt'', PStr ''hi''), (''model'', PStr ''Claude'')] = Inr ''claude-sonnet-4.5''"
    by blast+
  moreover from model_resolution_lowercase[OF p3 p3] l3 l4
  have "selected_model [(''model'', PStr ''Foo'')] = Inr ''foo''"
    by metis
  moreover from model_resolution_lowercase[OF p4 p4] l5 l6
  have "selected_model [(''model'', PStr ''foo'')] = Inr ''foo''"
    by metis
  ultimately show ?thesis by blast
qed

section \<open>The mode tracker and the loop of the main handler\<close>

lemma close_apart_open: "\<forall>t. suffix t ''</think>'' \<and> t \<noteq> [] \<longrightarrow> apart ''<think>'' t"
  by (auto simp: suffix_Cons apart_def)

lemma open_apart_close: "\<forall>t. suffix t ''<think>'' \<and> t \<noteq> [] \<longrightarrow> apart t ''</think>''"
  by (auto simp: suffix_Cons apart_def)

lemma close_survives_open_strip:
  "sublist ''</think>'' s \<Longrightarrow> sublist ''</think>'' (py_replace ''<think>'' [] s)"
  by (rule py_replace_keeps_sublist[OF close_apart_open open_apart_close]) simp_all

lemma strip_tag_str:
  "strip_tag tag new_mode (PStr f, m) =
     Inr (if sublist tag f then (PStr (py_replace tag [] f), new_mode) else (PStr f, m))"
  by (simp add: strip_tag_def)

lemma think_tags_str:
  "think_tags (PStr f) m =
     Inr (if sublist ''</think>'' (open_stripped f)
          then (PStr (py_replace ''</think>'' [] (open_stripped f)), ModeResponse)
          else (PStr (open_stripped f), if sublist ''<think>'' f then ModeThink else m))"
  by (simp add: think_tags_def strip_tag_str open_stripped_def)

lemma clean_token_str_total: "\<exists>t. clean_token (PStr s) = Inr t"
  by (cases s) simp_all

lemma main_dict_str:
  assumes "event_content d = PStr f" and "dict_get d ''status'' \<noteq> PStr ''error''"
      and "think_tags (PStr f) (current_mode st) = Inr (PStr c, m)"
      and "clean_token (PStr c) = Inr t"
  shows "main_dict d st = Go (append_token m t (st\<lparr>images := images st @ event_images d\<rparr>))"
  using assms by (simp add: main_dict_def)

lemma main_lines_decoded:
  assumes "py_strip raw = l" "l \<noteq> []" "\<not> prefix '':'' l" "main_frame l = l'" "l' \<noteq> ''[DONE]''"
      and "loads l' = Inr data"
  shows "main_lines loads (Line raw # rest) st =
           (case main_event data st of
              Raised e \<Rightarrow> Raised e
            | Returned r \<Rightarrow> Returned r
            | Go st' \<Rightarrow> main_lines loads rest st')"
  using assms by simp

lemma main_lines_sentinel:
  assumes "py_strip raw = l" "l \<noteq> []" "\<not> prefix '':'' l" "main_frame l = ''[DONE]''"
  shows "main_lines loads (Line raw # rest) st = Go st"
  using assms by simp


lemma main_lines_plain:
  assumes "plain_line l" and "loads l = Inr data" and "main_event data st = Go st'"
  shows "main_lines loads (Line l # rest) st = main_lines loads rest st'"
  using assms by (simp add: plain_line_def)

lemma main_lines_done: "main_lines loads (Line ''[DONE]'' # rest) st = Go st"
proof -
  have "py_strip ''[DONE]'' = ''[DONE]'' \<and> main_frame ''[DONE]'' = ''[DONE]''" by code_simp
  then show ?thesis by simp
qed

lemma process_main:
  assumes "selected_model params = Inr model" and "model \<noteq> ''gemini-imagen-4''"
      and "post (PDict (main_payload params model)) = Resp 200 body items"
      and "main_lines loads items initial_state = Go st"
  shows "process_kyvex_request loads post params = Inr (main_success (main_payload params model) model st)"
  using assms by (simp add: process_kyvex_request_def aggregate_def)

text \<open>
  Claim C9: a fragment that contains the closing marker leaves the mode at
  \<open>ModeResponse\<close>, whatever the mode was and whether or not the fragment also contains
  the opening marker, before or behind the closing one. Removing the opening markers
  never destroys a closing marker, so the second test of lines 267 to 269 fires; the
  fragment without its markers goes to the visible text. The instance is the fragment
  \<^verbatim>\<open></think>x<think>\<close> met in reasoning mode.
\<close>

theorem closing_marker_gives_visible:
  assumes "sublist ''</think>'' f"
  shows "(\<exists>c. think_tags (PStr f) m = Inr (PStr c, ModeResponse)) \<and>
         (\<forall>d st. event_content d = PStr f \<and> dict_get d ''status'' \<noteq> PStr ''error'' \<longrightarrow>
            (\<exists>t. clean_token (PStr (py_replace ''</think>'' [] (open_stripped f))) = Inr t \<and>
                 main_event (PDict d) st =
                   Go (st\<lparr>images := images st @ event_images d,
                          full_response := full_response st @ t,
                          current_mode := ModeResponse\<rparr>)))"
proof -
  have kept: "sublist ''</think>'' (open_stripped f)"
    using assms close_survives_open_strip by (simp add: open_stripped_def)
  then have tags: "think_tags (PStr f) m' =
      Inr (PStr (py_replace ''</think>'' [] (open_stripped f)), ModeResponse)" for m'
    by (simp add: think_tags_str)
  obtain t where t: "clean_token (PStr (py_replace ''</think>'' [] (open_stripped f))) = Inr t"
    using clean_token_str_total by blast
  have "main_event (PDict d) st =
          Go (st\<lparr>images := images st @ event_images d,
                 full_response := full_response st @ t,
                 current_mode := ModeResponse\<rparr>)"
    if "event_content d = PStr f" and "dict_get d ''status'' \<noteq> PStr ''error''" for d st
    using main_dict_str[OF that tags t] by (simp add: append_token_def)
  with tags t show ?thesis by blast
qed

theorem closing_marker_gives_visible_witness:
  "sublist ''</think>'' ''</think>x<think>'' \<and>
   think_tags (PStr ''</think>x<think>'') ModeThink = Inr (PStr ''x'', ModeResponse) \<and>
   main_event (PDict [(''token'', PStr ''</think>x<think>'')])
       \<lparr>full_response = ''a'', full_thought = ''b'', images = [], current_mode = ModeThink\<rparr>
     = Go \<lparr>full_response = ''ax'', full_thought = ''b'', images = [], current_mode = ModeResponse\<rparr>"
proof -
  let ?f = "''</think>x<think>''"
  let ?d = "[(''token'', PStr ?f)]"
  let ?st = "\<lparr>full_response = ''a'', full_thought = ''b'', images = [], current_mode = ModeThink\<rparr>"
  have sub: "sublist ''</think>'' ?f" by code_simp
  have ev: "event_content ?d = PStr ?f \<and> dict_get ?d ''status'' \<noteq> PStr ''error''" by code_simp
  have cl: "clean_token (PStr (py_replace ''</think>'' [] (open_stripped ?f))) = Inr ''x''" by code_simp
  have st: "?st\<lparr>images := images ?st @ event_images ?d,
                 full_response := full_response ?st @ ''x'',
                 current_mode := ModeResponse\<rparr>
            = \<lparr>full_response = ''ax'', full_thought = ''b'', images = [], current_mode = ModeResponse\<rparr>"
    by code_simp
  have tg: "think_tags (PStr ?f) ModeThink = Inr (PStr ''x'', ModeResponse)" by code_simp
  from closing_marker_gives_visible[OF sub, of ModeThink] ev cl
  obtain t where "clean_token (PStr (py_replace ''</think>'' [] (open_stripped ?f))) = Inr t"
     and "main_event (PDict ?d) ?st =
                   Go (?st\<lparr>images := images ?st @ event_images ?d,
                          full_response := full_response ?st @ t,
                          current_mode := ModeResponse\<rparr>)"
    by blast
  with cl st have "main_event (PDict ?d) ?st
     = Go \<lparr>full_response = ''ax'', full_thought = ''b'', images = [], current_mode = ModeResponse\<rparr>"
    by simp
  with sub tg show ?thesis by blast
qed

lemma main_event_open_only:
  assumes "event_content d = PStr f" and "dict_get d ''status'' \<noteq> PStr ''error''"
      and "sublist ''<think>'' f" and "\<not> sublist ''</think>'' (py_replace ''<think>'' [] f)"
  shows "\<exists>t. clean_token (PStr (py_replace ''<think>'' [] f)) = Inr t \<and>
             main_event (PDict d) st =
               Go (st\<lparr>images := images st @ event_images d,
                      full_thought := full_thought st @ t,
                      current_mode := ModeThink\<rparr>)"
proof -
  have tags: "think_tags (PStr f) (current_mode st) = Inr (PStr (py_replace ''<think>'' [] f), ModeThink)"
    using assms(3,4) by (simp add: think_tags_str open_stripped_def)
  obtain t where t: "clean_token (PStr (py_replace ''<think>'' [] f)) = Inr t"
    using clean_token_str_total by blast
  have "main_event (PDict d) st =
               Go (st\<lparr>images := images st @ event_images d,
                      full_thought := full_thought st @ t,
                      current_mode := ModeThink\<rparr>)"
    using main_dict_str[OF assms(1,2) tags t] by (simp add: append_token_def)
  with t show ?thesis by blast
qed

lemma main_event_close:
  assumes "event_content d = PStr f" and "dict_get d ''status'' \<noteq> PStr ''error''"
      and "sublist ''</think>'' f"
  shows "\<exists>t. clean_token (PStr (py_replace ''</think>'' [] (open_stripped f))) = Inr t \<and>
             main_event (PDict d) st =
               Go (st\<lparr>images := images st @ event_images d,
                      full_response := full_response st @ t,
                      current_mode := ModeResponse\<rparr>)"
proof -
  have kept: "sublist ''</think>'' (open_stripped f)"
    using assms(3) close_survives_open_strip by (simp add: open_stripped_def)
  then have tags: "think_tags (PStr f) (current_mode st) =
      Inr (PStr (py_replace ''</think>'' [] (open_stripped f)), ModeResponse)"
    by (simp add: think_tags_str)
  obtain t where t: "clean_token (PStr (py_replace ''</think>'' [] (open_stripped f))) = Inr t"
    using clean_token_str_total by blast
  have "main_event (PDict d) st =
          Go (st\<lparr>images := images st @ event_images d,
                 full_response := full_response st @ t,
                 current_mode := ModeResponse\<rparr>)"
    using main_dict_str[OF assms(1,2) tags t] by (simp add: append_token_def)
  with t show ?thesis by blast
qed

lemma main_success_fields:
  "main_success payload model st =
     PDict [(''success'', PBool True),
            (''meta'', PDict [(''model'', PStr model),
                              (''web_search'', dict_get payload ''webSearch''),
                              (''generated_image'', dict_get payload ''generateImage''),
                              (''reasoning'', dict_get payload ''reasoning'')]),
            (''response'', PStr (py_strip (full_response st))),
            (''thought'', PStr (py_strip (full_thought st))),
            (''images'', PList (images st))]"
  by (simp add: main_success_def)

lemma think_scenario_lines:
  assumes l1: \<open>loads ''{"token":"<think>"}'' = Inr (PDict [(''token'', PStr ''<think>'')])\<close>
      and l2: \<open>loads ''{"token":"plan"}'' = Inr (PDict [(''token'', PStr ''plan'')])\<close>
      and l3: \<open>loads ''{"token":"</think>"}'' = Inr (PDict [(''token'', PStr ''</think>'')])\<close>
      and l4: \<open>loads ''{"token":"answer"}'' = Inr (PDict [(''token'', PStr ''answer'')])\<close>
  shows \<open>main_lines loads
           [Line ''{"token":"<think>"}'', Line ''{"token":"plan"}'',
            Line ''{"token":"</think>"}'', Line ''{"token":"answer"}''] initial_state
         = Go \<lparr>full_response = ''answer'', full_thought = ''plan'', images = [],
                current_mode = ModeResponse\<rparr>\<close>
proof -
  have p1: \<open>plain_line ''{"token":"<think>"}''\<close> by code_simp
  have p2: \<open>plain_line ''{"token":"plan"}''\<close> by code_simp
  have p3: \<open>plain_line ''{"token":"</think>"}''\<close> by code_simp
  have p4: \<open>plain_line ''{"token":"answer"}''\<close> by code_simp
  have e1: "main_event (PDict [(''token'', PStr ''<think>'')]) initial_state
      = Go \<lparr>full_response = [], full_thought = [], images = [], current_mode = ModeThink\<rparr>"
    by code_simp
  have e2: "main_event (PDict [(''token'', PStr ''plan'')])
        \<lparr>full_response = [], full_thought = [], images = [], current_mode = ModeThink\<rparr>
      = Go \<lparr>full_response = [], full_thought = ''plan'', images = [], current_mode = ModeThink\<rparr>"
    by code_simp
  have e3: "main_event (PDict [(''token'', PStr ''</think>'')])
        \<lparr>full_response = [], full_thought = ''plan'', images = [], current_mode = ModeThink\<rparr>
      = Go \<lparr>full_response = [], full_thought = ''plan'', images = [], current_mode = ModeResponse\<rparr>"
    by code_simp
  have e4: "main_event (PDict [(''token'', PStr ''answer'')])
        \<lparr>full_response = [], full_thought = ''plan'', images = [], current_mode = ModeResponse\<rparr>
      = Go \<lparr>full_response = ''answer'', full_thought = ''plan'', images = [], current_mode = ModeResponse\<rparr>"
    by code_simp
  show ?thesis
    by (simp only: main_lines_plain[where loads=loads, OF p1 l1 e1] main_lines_plain[where loads=loads, OF p2 l2 e2]
        main_lines_plain[where loads=loads, OF p3 l3 e3] main_lines_plain[where loads=loads, OF p4 l4 e4] main_lines.simps(1))
qed

lemma hello_lines:
  assumes l1: \<open>loads ''{"token":"Hel"}'' = Inr (PDict [(''token'', PStr ''Hel'')])\<close>
      and l2: \<open>loads ''{"token":"lo"}'' = Inr (PDict [(''token'', PStr ''lo'')])\<close>
  shows \<open>main_lines loads
           (Line ''{"token":"Hel"}'' # Line ''{"token":"lo"}'' # Line ''[DONE]'' # rest) initial_state
         = Go \<lparr>full_response = ''Hello'', full_thought = [], images = [],
                current_mode = ModeResponse\<rparr>\<close>
proof -
  have p1: \<open>plain_line ''{"token":"Hel"}''\<close> by code_simp
  have p2: \<open>plain_line ''{"token":"lo"}''\<close> by code_simp
  have e1: "main_event (PDict [(''token'', PStr ''Hel'')]) initial_state
      = Go \<lparr>full_response = ''Hel'', full_thought = [], images = [], current_mode = ModeResponse\<rparr>"
    by code_simp
  have e2: "main_event (PDict [(''token'', PStr ''lo'')])
        \<lparr>full_response = ''Hel'', full_thought = [], images = [], current_mode = ModeResponse\<rparr>
      = Go \<lparr>full_response = ''Hello'', full_thought = [], images = [], current_mode = ModeResponse\<rparr>"
    by code_simp
  show ?thesis
    by (simp only: main_lines_plain[where loads=loads, OF p1 l1 e1] main_lines_plain[where loads=loads, OF p2 l2 e2] main_lines_done)
qed

lemma strip_words: "py_strip ''Hello'' = ''Hello'' \<and> py_strip ''answer'' = ''answer'' \<and> py_strip ''plan'' = ''plan'' \<and> py_strip [] = []"
  by code_simp

text \<open>
  Claim C6: on the main path, for an event whose text is the fragment \<open>f\<close>: when \<open>f\<close>
  contains the opening marker (and no closing marker is left after the opening markers
  are removed) the mode is \<open>ModeThink\<close> when the fragment is appended, so the fragment
  without the marker goes to the reasoning text; when \<open>f\<close> contains the closing marker the
  mode is back at \<open>ModeResponse\<close> and the fragment without its markers goes to the visible
  text. And for every decoder that reads the four lines as events with the tokens
  \<^verbatim>\<open><think>\<close>, \<^verbatim>\<open>plan\<close>, \<^verbatim>\<open></think>\<close>, \<^verbatim>\<open>answer\<close>, a request of a model other than the image
  model that receives these four lines returns a success result with the reasoning text
  \<^verbatim>\<open>plan\<close> and the visible text \<^verbatim>\<open>answer\<close>.
\<close>

theorem mode_tracker_markers:
  \<open>(event_content d = PStr f \<and> dict_get d ''status'' \<noteq> PStr ''error'' \<and>
    sublist ''<think>'' f \<and> \<not> sublist ''</think>'' (py_replace ''<think>'' [] f) \<longrightarrow>
      (\<exists>t. clean_token (PStr (py_replace ''<think>'' [] f)) = Inr t \<and>
           main_event (PDict d) st =
             Go (st\<lparr>images := images st @ event_images d,
                    full_thought := full_thought st @ t,
                    current_mode := ModeThink\<rparr>))) \<and>
   (event_content d = PStr f \<and> dict_get d ''status'' \<noteq> PStr ''error'' \<and>
    sublist ''</think>'' f \<longrightarrow>
      (\<exists>t. clean_token (PStr (py_replace ''</think>'' [] (open_stripped f))) = Inr t \<and>
           main_event (PDict d) st =
             Go (st\<lparr>images := images st @ event_images d,
                    full_response := full_response st @ t,
                    current_mode := ModeResponse\<rparr>))) \<and>
   (loads ''{"token":"<think>"}'' = Inr (PDict [(''token'', PStr ''<think>'')]) \<and>
    loads ''{"token":"plan"}'' = Inr (PDict [(''token'', PStr ''plan'')]) \<and>
    loads ''{"token":"</think>"}'' = Inr (PDict [(''token'', PStr ''</think>'')]) \<and>
    loads ''{"token":"answer"}'' = Inr (PDict [(''token'', PStr ''answer'')]) \<and>
    selected_model params = Inr model \<and> model \<noteq> ''gemini-imagen-4'' \<and>
    post (PDict (main_payload params model)) =
      Resp 200 body [Line ''{"token":"<think>"}'', Line ''{"token":"plan"}'',
                     Line ''{"token":"</think>"}'', Line ''{"token":"answer"}''] \<longrightarrow>
      (\<exists>meta. process_kyvex_request loads post params =
         Inr (PDict [(''success'', PBool True), (''meta'', meta),
                     (''response'', PStr ''answer''), (''thought'', PStr ''plan''),
                     (''images'', PList [])])))\<close>
proof (intro conjI impI)
  assume a: "event_content d = PStr f \<and> dict_get d ''status'' \<noteq> PStr ''error'' \<and>
    sublist ''<think>'' f \<and> \<not> sublist ''</think>'' (py_replace ''<think>'' [] f)"
  then show "\<exists>t. clean_token (PStr (py_replace ''<think>'' [] f)) = Inr t \<and>
           main_event (PDict d) st =
             Go (st\<lparr>images := images st @ event_images d,
                    full_thought := full_thought st @ t,
                    current_mode := ModeThink\<rparr>)"
    using main_event_open_only[of d f st] by blast
next
  assume a: "event_content d = PStr f \<and> dict_get d ''status'' \<noteq> PStr ''error'' \<and>
    sublist ''</think>'' f"
  then show "\<exists>t. clean_token (PStr (py_replace ''</think>'' [] (open_stripped f))) = Inr t \<and>
           main_event (PDict d) st =
             Go (st\<lparr>images := images st @ event_images d,
                    full_response := full_response st @ t,
                    current_mode := ModeResponse\<rparr>)"
    using main_event_close[of d f st] by blast
next
  assume a: \<open>loads ''{"token":"<think>"}'' = Inr (PDict [(''token'', PStr ''<think>'')]) \<and>
    loads ''{"token":"plan"}'' = Inr (PDict [(''token'', PStr ''plan'')]) \<and>
    loads ''{"token":"</think>"}'' = Inr (PDict [(''token'', PStr ''</think>'')]) \<and>
    loads ''{"token":"answer"}'' = Inr (PDict [(''token'', PStr ''answer'')]) \<and>
    selected_model params = Inr model \<and> model \<noteq> ''gemini-imagen-4'' \<and>
    post (PDict (main_payload params model)) =
      Resp 200 body [Line ''{"token":"<think>"}'', Line ''{"token":"plan"}'',
                     Line ''{"token":"</think>"}'', Line ''{"token":"answer"}'']\<close>
  then have lines: \<open>main_lines loads
           [Line ''{"token":"<think>"}'', Line ''{"token":"plan"}'',
            Line ''{"token":"</think>"}'', Line ''{"token":"answer"}''] initial_state
         = Go \<lparr>full_response = ''answer'', full_thought = ''plan'', images = [],
                current_mode = ModeResponse\<rparr>\<close>
    using think_scenario_lines[of loads] by blast
  from a have sel: "selected_model params = Inr model" and ni: "model \<noteq> ''gemini-imagen-4''"
    and po: \<open>post (PDict (main_payload params model)) =
      Resp 200 body [Line ''{"token":"<think>"}'', Line ''{"token":"plan"}'',
                     Line ''{"token":"</think>"}'', Line ''{"token":"answer"}'']\<close>
    by blast+
  show \<open>\<exists>meta. process_kyvex_request loads post params =
         Inr (PDict [(''success'', PBool True), (''meta'', meta),
                     (''response'', PStr ''answer''), (''thought'', PStr ''plan''),
                     (''images'', PList [])])\<close>
    using process_main[where post=post and loads=loads, OF sel ni po lines] strip_words by (simp add: main_success_fields)
qed

theorem mode_tracker_markers_witness:
  \<open>main_event (PDict [(''token'', PStr ''<think>plan'')]) initial_state
     = Go \<lparr>full_response = [], full_thought = ''plan'', images = [], current_mode = ModeThink\<rparr> \<and>
   main_event (PDict [(''token'', PStr ''done</think>'')])
       \<lparr>full_response = [], full_thought = ''plan'', images = [], current_mode = ModeThink\<rparr>
     = Go \<lparr>full_response = ''done'', full_thought = ''plan'', images = [], current_mode = ModeResponse\<rparr> \<and>
   (\<exists>meta. process_kyvex_request json_loads
       (serve [''{"token":"<think>"}'', ''{"token":"plan"}'', ''{"token":"</think>"}'', ''{"token":"answer"}''])
       [(''prompt'', PStr ''hi'')] =
     Inr (PDict [(''success'', PBool True), (''meta'', meta),
                 (''response'', PStr ''answer''), (''thought'', PStr ''plan''),
                 (''images'', PList [])]))\<close>
proof -
  let ?d1 = "[(''token'', PStr ''<think>plan'')]"
  let ?d2 = "[(''token'', PStr ''done</think>'')]"
  let ?st2 = "\<lparr>full_response = [], full_thought = ''plan'', images = [], current_mode = ModeThink\<rparr>"
  let ?post = \<open>serve [''{"token":"<think>"}'', ''{"token":"plan"}'', ''{"token":"</think>"}'', ''{"token":"answer"}'']\<close>
  let ?params = "[(''prompt'', PStr ''hi'')]"
  have h1: "event_content ?d1 = PStr ''<think>plan'' \<and> dict_get ?d1 ''status'' \<noteq> PStr ''error'' \<and>
    sublist ''<think>'' ''<think>plan'' \<and> \<not> sublist ''</think>'' (py_replace ''<think>'' [] ''<think>plan'')"
    by code_simp
  have c1: "clean_token (PStr (py_replace ''<think>'' [] ''<think>plan'')) = Inr ''plan''" by code_simp
  have s1: "initial_state\<lparr>images := images initial_state @ event_images ?d1,
                    full_thought := full_thought initial_state @ ''plan'',
                    current_mode := ModeThink\<rparr>
            = \<lparr>full_response = [], full_thought = ''plan'', images = [], current_mode = ModeThink\<rparr>"
    by code_simp
  have h2: "event_content ?d2 = PStr ''done</think>'' \<and> dict_get ?d2 ''status'' \<noteq> PStr ''error'' \<and>
    sublist ''</think>'' ''done</think>''"
    by code_simp
  have c2: "clean_token (PStr (py_replace ''</think>'' [] (open_stripped ''done</think>''))) = Inr ''done''"
    by code_simp
  have s2: "?st2\<lparr>images := images ?st2 @ event_images ?d2,
                    full_response := full_response ?st2 @ ''done'',
                    current_mode := ModeResponse\<rparr>
            = \<lparr>full_response = ''done'', full_thought = ''plan'', images = [], current_mode = ModeResponse\<rparr>"
    by code_simp
  have h3: \<open>json_loads ''{"token":"<think>"}'' = Inr (PDict [(''token'', PStr ''<think>'')]) \<and>
    json_loads ''{"token":"plan"}'' = Inr (PDict [(''token'', PStr ''plan'')]) \<and>
    json_loads ''{"token":"</think>"}'' = Inr (PDict [(''token'', PStr ''</think>'')]) \<and>
    json_loads ''{"token":"answer"}'' = Inr (PDict [(''token'', PStr ''answer'')]) \<and>
    selected_model ?params = Inr ''kyvex'' \<and> ''kyvex'' \<noteq> ''gemini-imagen-4''\<close>
    by code_simp
  have po: \<open>?post (PDict (main_payload ?params ''kyvex'')) =
      Resp 200 [] [Line ''{"token":"<think>"}'', Line ''{"token":"plan"}'',
                     Line ''{"token":"</think>"}'', Line ''{"token":"answer"}'']\<close>
    by (simp add: serve_def)
  note thm1 = mode_tracker_markers[of ?d1 "''<think>plan''" initial_state json_loads ?params "''kyvex''" ?post "[]"]
  note thm2 = mode_tracker_markers[of ?d2 "''done</think>''" ?st2 json_loads ?params "''kyvex''" ?post "[]"]
  from thm1 h1 obtain t where "clean_token (PStr (py_replace ''<think>'' [] ''<think>plan'')) = Inr t"
    and "main_event (PDict ?d1) initial_state =
             Go (initial_state\<lparr>images := images initial_state @ event_images ?d1,
                    full_thought := full_thought initial_state @ t,
                    current_mode := ModeThink\<rparr>)"
    by blast
  with c1 s1 have r1: "main_event (PDict ?d1) initial_state
     = Go \<lparr>full_response = [], full_thought = ''plan'', images = [], current_mode = ModeThink\<rparr>"
    by simp
  from thm2 h2 obtain t where "clean_token (PStr (py_replace ''</think>'' [] (open_stripped ''done</think>''))) = Inr t"
    and "main_event (PDict ?d2) ?st2 =
             Go (?st2\<lparr>images := images ?st2 @ event_images ?d2,
                    full_response := full_response ?st2 @ t,
                    current_mode := ModeResponse\<rparr>)"
    by blast
  with c2 s2 have r2: "main_event (PDict ?d2) ?st2
     = Go \<lparr>full_response = ''done'', full_thought = ''plan'', images = [], current_mode = ModeResponse\<rparr>"
    by simp
  from thm1 h3 po have r3: \<open>\<exists>meta. process_kyvex_request json_loads ?post ?params =
     Inr (PDict [(''success'', PBool True), (''meta'', meta),
                 (''response'', PStr ''answer''), (''thought'', PStr ''plan''),
                 (''images'', PList [])])\<close>
    by blast
  from r1 r2 r3 show ?thesis by blast
qed

section \<open>End to end\<close>

text \<open>
  Claim C7: for every decoder that reads the two token lines as the events they spell, a
  request of a model other than the image model whose stream is the lines
  \<^verbatim>\<open>{"token":"Hel"}\<close>, \<^verbatim>\<open>{"token":"lo"}\<close>, \<^verbatim>\<open>[DONE]\<close>, followed by anything, returns
  a success result with the visible text \<^verbatim>\<open>Hello\<close>, an empty reasoning text and no
  images: the loop stops at the sentinel and reads nothing behind it. In the instance
  the line behind the sentinel is an error event.
\<close>

theorem hello_stream_result:
  assumes \<open>loads ''{"token":"Hel"}'' = Inr (PDict [(''token'', PStr ''Hel'')])\<close>
      and \<open>loads ''{"token":"lo"}'' = Inr (PDict [(''token'', PStr ''lo'')])\<close>
      and "selected_model params = Inr model" and "model \<noteq> ''gemini-imagen-4''"
      and \<open>post (PDict (main_payload params model)) =
             Resp 200 body (Line ''{"token":"Hel"}'' # Line ''{"token":"lo"}'' # Line ''[DONE]'' # rest)\<close>
  shows \<open>\<exists>meta. process_kyvex_request loads post params =
            Inr (PDict [(''success'', PBool True), (''meta'', meta),
                        (''response'', PStr ''Hello''), (''thought'', PStr []),
                        (''images'', PList [])])\<close>
  using process_main[where post=post and loads=loads, OF assms(3,4,5) hello_lines[where loads=loads, OF assms(1,2)]] strip_words
  by (simp add: main_success_fields)

theorem hello_stream_result_witness:
  \<open>\<exists>meta. process_kyvex_request json_loads
       (serve [''{"token":"Hel"}'', ''{"token":"lo"}'', ''[DONE]'', ''{"status":"error","message":"late"}''])
       [(''prompt'', PStr ''hi'')] =
     Inr (PDict [(''success'', PBool True), (''meta'', meta),
                 (''response'', PStr ''Hello''), (''thought'', PStr []),
                 (''images'', PList [])])\<close>
proof -
  have l1: \<open>json_loads ''{"token":"Hel"}'' = Inr (PDict [(''token'', PStr ''Hel'')])\<close> by code_simp
  have l2: \<open>json_loads ''{"token":"lo"}'' = Inr (PDict [(''token'', PStr ''lo'')])\<close> by code_simp
  have sel: "selected_model [(''prompt'', PStr ''hi'')] = Inr ''kyvex''" by code_simp
  have ni: "''kyvex'' \<noteq> ''gemini-imagen-4''" by simp
  have po: \<open>serve [''{"token":"Hel"}'', ''{"token":"lo"}'', ''[DONE]'', ''{"status":"error","message":"late"}'']
              (PDict (main_payload [(''prompt'', PStr ''hi'')] ''kyvex'')) =
            Resp 200 [] (Line ''{"token":"Hel"}'' # Line ''{"token":"lo"}'' # Line ''[DONE]'' #
                         [Line ''{"status":"error","message":"late"}''])\<close>
    by (simp add: serve_def)
  show ?thesis by (rule hello_stream_result[where loads=json_loads and post="serve _", OF l1 l2 sel ni po])
qed

section \<open>Lines the main handler cannot use\<close>

lemma main_event_other: "\<not> is_dict v \<Longrightarrow> \<not> is_str v \<Longrightarrow> main_event v st = Go st"
  by (cases v) simp_all

lemma main_event_text:
  "\<exists>t. clean_token (PStr s) = Inr t \<and>
       main_event (PStr s) st = Go (st\<lparr>full_response := full_response st @ t\<rparr>)"
proof -
  obtain t where "clean_token (PStr s) = Inr t" using clean_token_str_total by blast
  then show ?thesis by simp
qed

text \<open>
  Claim C1 says that on the main path a line whose decoding fails becomes raw text of the
  visible channel. Lines 240 to 243 catch the decoding error and go on to the next line,
  and a decoded value that is neither an object nor a string meets no branch of lines 245
  to 280: of the lines \<^verbatim>\<open>{"token":"a"}\<close>, \<^verbatim>\<open>hello\<close>, \<^verbatim>\<open>7\<close> only the first reaches the
  result.
\<close>

theorem malformed_line_dropped_counterexample:
  \<open>json_loads ''hello'' = Inl (JSONDecodeError ''Expecting value'') \<and>
   process_kyvex_request json_loads (serve [''{"token":"a"}'', ''hello'', ''7''])
       [(''prompt'', PStr ''hi'')] =
     Inr (PDict [(''success'', PBool True),
                 (''meta'', PDict [(''model'', PStr ''kyvex''), (''web_search'', PBool False),
                                   (''generated_image'', PBool False), (''reasoning'', PBool False)]),
                 (''response'', PStr ''a''), (''thought'', PStr []), (''images'', PList [])])\<close>
  by code_simp

text \<open>
  Claim C1, amended: on the main path a line that is not the sentinel and whose decoding
  fails with a decoding error, or whose decoded value is neither an object nor a string,
  is skipped: the loop goes on with the state it had, so nothing of the line reaches
  either text or the images. A line that decodes to a string is appended, normalized, to
  the visible text.
\<close>

theorem undecodable_line_skipped:
  "(main_frame (py_strip raw) \<noteq> ''[DONE]'' \<and>
    ((\<exists>m. loads (main_frame (py_strip raw)) = Inl (JSONDecodeError m)) \<or>
     (\<exists>v. loads (main_frame (py_strip raw)) = Inr v \<and> \<not> is_dict v \<and> \<not> is_str v)) \<longrightarrow>
      main_lines loads (Line raw # rest) st = main_lines loads rest st) \<and>
   (py_strip raw \<noteq> [] \<and> \<not> prefix '':'' (py_strip raw) \<and> main_frame (py_strip raw) \<noteq> ''[DONE]'' \<and>
    loads (main_frame (py_strip raw)) = Inr (PStr s) \<longrightarrow>
      (\<exists>t. clean_token (PStr s) = Inr t \<and>
           main_lines loads (Line raw # rest) st =
             main_lines loads rest (st\<lparr>full_response := full_response st @ t\<rparr>)))"
proof (intro conjI impI)
  assume a: "main_frame (py_strip raw) \<noteq> ''[DONE]'' \<and>
    ((\<exists>m. loads (main_frame (py_strip raw)) = Inl (JSONDecodeError m)) \<or>
     (\<exists>v. loads (main_frame (py_strip raw)) = Inr v \<and> \<not> is_dict v \<and> \<not> is_str v))"
  then consider
      (fail) m where "loads (main_frame (py_strip raw)) = Inl (JSONDecodeError m)"
    | (other) v where "loads (main_frame (py_strip raw)) = Inr v" "\<not> is_dict v" "\<not> is_str v"
    by blast
  then show "main_lines loads (Line raw # rest) st = main_lines loads rest st"
  proof cases
    case fail
    with a show ?thesis by simp
  next
    case other
    with a show ?thesis by (simp add: main_event_other)
  qed
next
  assume a: "py_strip raw \<noteq> [] \<and> \<not> prefix '':'' (py_strip raw) \<and> main_frame (py_strip raw) \<noteq> ''[DONE]'' \<and>
    loads (main_frame (py_strip raw)) = Inr (PStr s)"
  obtain t where t: "clean_token (PStr s) = Inr t" using clean_token_str_total by blast
  with a have "main_lines loads (Line raw # rest) st =
             main_lines loads rest (st\<lparr>full_response := full_response st @ t\<rparr>)"
    by simp
  with t show "\<exists>t. clean_token (PStr s) = Inr t \<and>
           main_lines loads (Line raw # rest) st =
             main_lines loads rest (st\<lparr>full_response := full_response st @ t\<rparr>)"
    by blast
qed

theorem undecodable_line_skipped_witness:
  \<open>main_lines json_loads [Line ''hello''] initial_state = Go initial_state \<and>
   main_lines json_loads [Line ''data: [1, 2]''] initial_state = Go initial_state \<and>
   main_lines json_loads [Line ''"hello"''] initial_state
     = Go \<lparr>full_response = ''hello'', full_thought = [], images = [], current_mode = ModeResponse\<rparr>\<close>
proof -
  have h1: \<open>main_frame (py_strip ''hello'') \<noteq> ''[DONE]'' \<and>
            json_loads (main_frame (py_strip ''hello'')) = Inl (JSONDecodeError ''Expecting value'')\<close>
    by code_simp
  have h2: \<open>main_frame (py_strip ''data: [1, 2]'') \<noteq> ''[DONE]'' \<and>
            json_loads (main_frame (py_strip ''data: [1, 2]'')) = Inr (PList [PInt 1, PInt 2]) \<and>
            \<not> is_dict (PList [PInt 1, PInt 2]) \<and> \<not> is_str (PList [PInt 1, PInt 2])\<close>
    by code_simp
  have h3: \<open>py_strip ''"hello"'' \<noteq> [] \<and> \<not> prefix '':'' (py_strip ''"hello"'') \<and>
            main_frame (py_strip ''"hello"'') \<noteq> ''[DONE]'' \<and>
            json_loads (main_frame (py_strip ''"hello"'')) = Inr (PStr ''hello'')\<close>
    by code_simp
  have c3: "clean_token (PStr ''hello'') = Inr ''hello''" by code_simp
  have s3: "initial_state\<lparr>full_response := full_response initial_state @ ''hello''\<rparr>
     = \<lparr>full_response = ''hello'', full_thought = [], images = [], current_mode = ModeResponse\<rparr>"
    by code_simp
  from undecodable_line_skipped[of "''hello''" json_loads "[]" initial_state] h1
  have r1: "main_lines json_loads [Line ''hello''] initial_state = Go initial_state"
    by (metis main_lines.simps(1))
  from undecodable_line_skipped[of "''data: [1, 2]''" json_loads "[]" initial_state] h2
  have r2: "main_lines json_loads [Line ''data: [1, 2]''] initial_state = Go initial_state"
    by (metis main_lines.simps(1))
  from undecodable_line_skipped[of \<open>''"hello"''\<close> json_loads "[]" initial_state "''hello''"] h3
  obtain t where "clean_token (PStr ''hello'') = Inr t"
    and \<open>main_lines json_loads [Line ''"hello"''] initial_state =
             main_lines json_loads [] (initial_state\<lparr>full_response := full_response initial_state @ t\<rparr>)\<close>
    by blast
  with c3 s3 have r3: \<open>main_lines json_loads [Line ''"hello"''] initial_state
     = Go \<lparr>full_response = ''hello'', full_thought = [], images = [], current_mode = ModeResponse\<rparr>\<close>
    by simp
  from r1 r2 r3 show ?thesis by blast
qed

section \<open>Error events\<close>

text \<open>
  On the main path an event with the status \<^verbatim>\<open>error\<close> ends the request with a failure
  that carries the event's message, or the default text when the message is missing or
  empty; the state accumulated so far is not part of the result.
\<close>

lemma main_error_event_returns:
  assumes "py_strip raw \<noteq> []" and "\<not> prefix '':'' (py_strip raw)"
      and "main_frame (py_strip raw) \<noteq> ''[DONE]''"
      and "loads (main_frame (py_strip raw)) = Inr (PDict d)"
      and "dict_get d ''status'' = PStr ''error''"
  shows "main_lines loads (Line raw # rest) st =
           Returned (failure_message (py_or (dict_get d ''message'') (PStr ''Unknown upstream error'')))"
  using assms by (simp add: main_dict_def)

text \<open>
  Claim C3 extends this to the handler of the image model. That handler never reads the
  status (lines 112 to 145): the error event has neither token nor content, so its line
  is the chunk and is appended to the response, and the result is a success. The same
  stream sent for the model \<^verbatim>\<open>kyvex\<close> gives the failure with the message.
\<close>

theorem imagen_error_event_success:
  \<open>process_kyvex_request json_loads
       (serve [''{"token":"a"}'', ''{"status":"error","message":"rate limited"}''])
       [(''prompt'', PStr ''hi''), (''model'', PStr ''imagen'')] =
     Inr (PDict [(''success'', PBool True),
                 (''meta'', PDict [(''model'', PStr ''gemini-imagen-4''), (''web_search'', PBool False),
                                   (''generated_image'', PBool True), (''reasoning'', PBool False)]),
                 (''response'', PStr ''a{"status":"error","message":"rate limited"}''),
                 (''thought'', PStr []), (''images'', PList [])]) \<and>
   process_kyvex_request json_loads
       (serve [''{"token":"a"}'', ''{"status":"error","message":"rate limited"}''])
       [(''prompt'', PStr ''hi''), (''model'', PStr ''kyvex'')] =
     Inr (PDict [(''success'', PBool False), (''message'', PStr ''rate limited'')])\<close>
  by code_simp

section \<open>The shape of the result\<close>

lemma failure_message_shape: "failure_shape (failure_message m) \<and> \<not> success_shape (failure_message m)"
  by (simp add: failure_shape_def success_shape_def failure_message_def dict_get_def dict_has_def)

lemma failure_status_shape: "failure_shape (failure_status c b) \<and> \<not> success_shape (failure_status c b)"
  by (simp add: failure_shape_def success_shape_def failure_status_def dict_get_def dict_has_def)

lemma main_success_shape:
  "success_shape (main_success payload model st) \<and> \<not> failure_shape (main_success payload model st)"
  by (simp add: failure_shape_def success_shape_def main_success_def dict_get_def dict_has_def)

lemma imagen_success_shape:
  "success_shape (imagen_success resp imgs) \<and> \<not> failure_shape (imagen_success resp imgs)"
  by (simp add: failure_shape_def success_shape_def imagen_success_def dict_get_def dict_has_def)

lemma main_event_returned: "main_event v st = Returned r \<Longrightarrow> \<exists>m. r = failure_message m"
  by (cases v) (auto simp: main_dict_def split: if_splits sum.splits)

lemma main_lines_returned: "main_lines loads items st = Returned r \<Longrightarrow> \<exists>m. r = failure_message m"
proof (induction loads items st rule: main_lines.induct)
  case (1 loads st)
  then show ?case by simp
next
  case (2 loads e rest st)
  then show ?case by simp
next
  case (3 loads raw_line rest st)
  show ?case
  proof (cases "py_strip raw_line = [] \<or> prefix '':'' (py_strip raw_line)")
    case True
    with 3 show ?thesis by simp
  next
    case skip: False
    show ?thesis
    proof (cases "main_frame (py_strip raw_line) = ''[DONE]''")
      case True
      with skip "3.prems" show ?thesis by simp
    next
      case nd: False
      show ?thesis
      proof (cases "loads (main_frame (py_strip raw_line))")
        case (Inl e)
        with skip nd 3 show ?thesis by (cases "is_decode_error e") simp_all
      next
        case (Inr data)
        show ?thesis
        proof (cases "main_event data st")
          case (Raised e)
          with skip nd Inr "3.prems" show ?thesis by simp
        next
          case (Returned r')
          with skip nd Inr "3.prems" have "r = r'" by simp
          with Returned main_event_returned show ?thesis by blast
        next
          case (Go st')
          with skip nd Inr "3.prems" have "main_lines loads rest st' = Returned r" by simp
          with "3.IH"(3)[OF skip nd Inr Go] show ?thesis by blast
        qed
      qed
    qed
  qed
qed

lemma aggregate_one_shape: "one_shape (aggregate loads post params model)"
proof (cases "post (PDict (main_payload params model))")
  case (ConnectFault e)
  then show ?thesis using failure_message_shape by (simp add: aggregate_def one_shape_def)
next
  case (Resp status body items)
  show ?thesis
  proof (cases "status = 200")
    case False
    with Resp show ?thesis using failure_status_shape by (simp add: aggregate_def one_shape_def)
  next
    case True
    show ?thesis
    proof (cases "main_lines loads items initial_state")
      case (Raised e)
      with Resp True show ?thesis using failure_message_shape by (simp add: aggregate_def one_shape_def)
    next
      case (Returned r)
      then obtain m where "r = failure_message m" using main_lines_returned by blast
      with Resp True Returned show ?thesis using failure_message_shape by (simp add: aggregate_def one_shape_def)
    next
      case (Go st)
      with Resp True show ?thesis using main_success_shape by (simp add: aggregate_def one_shape_def)
    qed
  qed
qed

lemma imagen_one_shape: "one_shape (process_imagen_specific loads post params)"
proof (cases "post (imagen_payload params)")
  case (ConnectFault e)
  then show ?thesis using failure_message_shape by (simp add: process_imagen_specific_def one_shape_def)
next
  case (Resp status body items)
  show ?thesis
  proof (cases "status = 200")
    case False
    with Resp show ?thesis using failure_status_shape by (simp add: process_imagen_specific_def one_shape_def)
  next
    case True
    show ?thesis
    proof (cases "imagen_lines loads items ([], [])")
      case (Inl e)
      with Resp True show ?thesis using failure_message_shape by (simp add: process_imagen_specific_def one_shape_def)
    next
      case (Inr st)
      with Resp True show ?thesis using imagen_success_shape by (simp add: process_imagen_specific_def one_shape_def)
    qed
  qed
qed

lemma one_shape_inside_try:
  "(is_str (dict_get_default params ''model'' (PStr ''kyvex'')) \<longrightarrow>
      (\<exists>r. process_kyvex_request loads post params = Inr r \<and> one_shape r)) \<and>
   (\<not> is_str (dict_get_default params ''model'' (PStr ''kyvex'')) \<longrightarrow>
      (\<exists>m. process_kyvex_request loads post params = Inl (AttributeError m)))"
proof (cases "dict_get_default params ''model'' (PStr ''kyvex'')")
  case (PStr s)
  then show ?thesis
    using aggregate_one_shape imagen_one_shape
    by (simp add: process_kyvex_request_def selected_model_def model_input_def)
qed (simp_all add: process_kyvex_request_def selected_model_def model_input_def)

text \<open>
  Claim C8 says that no exception leaves the aggregator. Everything inside the two
  \<^verbatim>\<open>try\<close> blocks ends in one of the two shapes (\<open>one_shape_inside_try\<close>), but line 193
  stands before the \<^verbatim>\<open>try\<close> and calls \<^verbatim>\<open>lower\<close> on the model parameter: for the JSON body
  \<^verbatim>\<open>{"prompt": "hi", "model": 3}\<close> it raises \<^verbatim>\<open>AttributeError\<close>, which leaves
  \<^verbatim>\<open>process_kyvex_request\<close>.
\<close>

theorem non_text_model_raises:
  \<open>process_kyvex_request json_loads (serve [''{"token":"a"}''])
       [(''prompt'', PStr ''hi''), (''model'', PInt 3)] =
     Inl (AttributeError ([CHR 0x27] @ ''int'' @ [CHR 0x27] @ '' object has no attribute '' @
                          [CHR 0x27] @ ''lower'' @ [CHR 0x27]))\<close>
  by code_simp

section \<open>The pattern scans\<close>

lemma if_case_opt:
  "(case (if P then Some t else None) of None \<Rightarrow> e | Some r \<Rightarrow> Some r) = (if P then Some t else e)"
  by simp

lemma search_b64_first: "search_b64 c = first_match b64_here c"
proof (induction c)
  case Nil
  show ?case by simp
next
  case (Cons x xs)
  have h: "b64_here (x # xs) =
     (if prefix ''base64,'' (x # xs) \<and> takeWhile is_b64 (drop 7 (x # xs)) \<noteq> []
      then Some (takeWhile is_b64 (drop 7 (x # xs))) else None)"
    by (simp only: b64_here_def)
  show ?case by (simp only: search_b64.simps first_match.simps h if_case_opt Cons.IH)
qed

lemma search_url_first: "search_url c = first_match url_here c"
proof (induction c)
  case Nil
  show ?case by simp
next
  case (Cons x xs)
  have h: "url_here (x # xs) =
     (if prefix ''https://'' (x # xs) \<and> takeWhile url_char (drop 8 (x # xs)) \<noteq> []
      then Some (''https://'' @ takeWhile url_char (drop 8 (x # xs))) else None)"
    by (simp only: url_here_def)
  show ?case by (simp only: search_url.simps first_match.simps h if_case_opt Cons.IH)
qed

lemma first_match_leftmost:
  "first_match f c = Some r \<longleftrightarrow>
     (\<exists>i<length c. f (drop i c) = Some r \<and> (\<forall>j<i. f (drop j c) = None))"
proof (induction c)
  case Nil
  show ?case by simp
next
  case (Cons x xs)
  show ?case
  proof (cases "f (x # xs)")
    case (Some r')
    have "(\<exists>i<length (x # xs). f (drop i (x # xs)) = Some r \<and> (\<forall>j<i. f (drop j (x # xs)) = None))
          \<longleftrightarrow> r' = r" (is "?L \<longleftrightarrow> _")
    proof
      assume ?L
      then obtain i where i: "f (drop i (x # xs)) = Some r" "\<forall>j<i. f (drop j (x # xs)) = None"
        by blast
      have "i = 0"
      proof (rule ccontr)
        assume "i \<noteq> 0"
        then have "f (drop 0 (x # xs)) = None" using i(2) by blast
        with Some show False by simp
      qed
      with i(1) Some show "r' = r" by simp
    next
      assume "r' = r"
      with Some have "f (drop 0 (x # xs)) = Some r \<and> (\<forall>j<0. f (drop j (x # xs)) = None)" by simp
      then show ?L by (intro exI[of _ 0]) simp
    qed
    with Some show ?thesis by simp
  next
    case None
    have "(\<exists>i<length (x # xs). f (drop i (x # xs)) = Some r \<and> (\<forall>j<i. f (drop j (x # xs)) = None))
          \<longleftrightarrow> (\<exists>i<length xs. f (drop i xs) = Some r \<and> (\<forall>j<i. f (drop j xs) = None))"
      (is "?L \<longleftrightarrow> ?R")
    proof
      assume ?L
      then obtain i where i: "i < length (x # xs)" "f (drop i (x # xs)) = Some r"
          "\<forall>j<i. f (drop j (x # xs)) = None"
        by blast
      from i(2) None obtain k where k: "i = Suc k" by (cases i) auto
      have "\<forall>j<k. f (drop j xs) = None"
      proof (intro allI impI)
        fix j assume "j < k"
        then have "f (drop (Suc j) (x # xs)) = None" using i(3) k by auto
        then show "f (drop j xs) = None" by simp
      qed
      with i(1,2) k show ?R by auto
    next
      assume ?R
      then obtain k where k: "k < length xs" "f (drop k xs) = Some r" "\<forall>j<k. f (drop j xs) = None"
        by blast
      have "\<forall>j<Suc k. f (drop j (x # xs)) = None"
      proof (intro allI impI)
        fix j assume "j < Suc k"
        then show "f (drop j (x # xs)) = None" using None k(3) by (cases j) auto
      qed
      with k(1,2) show ?L by (intro exI[of _ "Suc k"]) simp
    qed
    with None Cons.IH show ?thesis by simp
  qed
qed

lemma run_split:
  "takeWhile P z = r \<longleftrightarrow> (\<exists>rest. z = r @ rest \<and> list_all P r \<and> (rest = [] \<or> \<not> P (hd rest)))"
proof
  assume a: "takeWhile P z = r"
  have "z = takeWhile P z @ dropWhile P z" by simp
  moreover have "list_all P (takeWhile P z)" by (auto simp: list_all_iff dest: set_takeWhileD)
  moreover have "dropWhile P z = [] \<or> \<not> P (hd (dropWhile P z))" using hd_dropWhile[of P z] by blast
  ultimately show "\<exists>rest. z = r @ rest \<and> list_all P r \<and> (rest = [] \<or> \<not> P (hd rest))"
    unfolding a by blast
next
  assume "\<exists>rest. z = r @ rest \<and> list_all P r \<and> (rest = [] \<or> \<not> P (hd rest))"
  then obtain rest where z: "z = r @ rest" and r: "list_all P r" and e: "rest = [] \<or> \<not> P (hd rest)"
    by blast
  have "takeWhile P rest = []" using e by (cases rest) auto
  with z r show "takeWhile P z = r" by (simp add: list_all_iff takeWhile_append2)
qed

lemma b64_here_Some:
  "b64_here s = Some r \<longleftrightarrow>
     (\<exists>rest. s = ''base64,'' @ r @ rest \<and> r \<noteq> [] \<and> list_all is_b64 r \<and>
             (rest = [] \<or> \<not> is_b64 (hd rest)))"
proof
  assume a: "b64_here s = Some r"
  then have p: "prefix ''base64,'' s" and r: "takeWhile is_b64 (drop 7 s) = r" and ne: "r \<noteq> []"
    by (auto simp only: b64_here_def split: if_splits)
  from p obtain z where z: "s = ''base64,'' @ z" by (auto simp: prefix_def)
  then have "drop 7 s = z" by simp
  with r run_split[of is_b64 z r] obtain rest where
    "z = r @ rest" "list_all is_b64 r" "rest = [] \<or> \<not> is_b64 (hd rest)" by auto
  with z ne show "\<exists>rest. s = ''base64,'' @ r @ rest \<and> r \<noteq> [] \<and> list_all is_b64 r \<and>
             (rest = [] \<or> \<not> is_b64 (hd rest))" by blast
next
  assume "\<exists>rest. s = ''base64,'' @ r @ rest \<and> r \<noteq> [] \<and> list_all is_b64 r \<and>
             (rest = [] \<or> \<not> is_b64 (hd rest))"
  then obtain rest where s: "s = ''base64,'' @ r @ rest" and ne: "r \<noteq> []"
     and rr: "list_all is_b64 r" "rest = [] \<or> \<not> is_b64 (hd rest)" by blast
  have p: "prefix ''base64,'' s" using s by (simp only: prefixI)
  have d: "drop 7 s = r @ rest" using s by simp
  have "takeWhile is_b64 (r @ rest) = r" using rr run_split[of is_b64 "r @ rest" r] by blast
  with p d ne show "b64_here s = Some r" by (simp only: b64_here_def) simp
qed

lemma url_here_Some:
  "url_here s = Some u \<longleftrightarrow>
     (\<exists>t rest. s = u @ rest \<and> u = ''https://'' @ t \<and> t \<noteq> [] \<and> list_all url_char t \<and>
             (rest = [] \<or> \<not> url_char (hd rest)))"
proof
  assume a: "url_here s = Some u"
  then have p: "prefix ''https://'' s" and u: "u = ''https://'' @ takeWhile url_char (drop 8 s)"
     and ne: "takeWhile url_char (drop 8 s) \<noteq> []"
    by (auto simp only: url_here_def split: if_splits)
  from p obtain z where z: "s = ''https://'' @ z" by (auto simp: prefix_def)
  then have dz: "drop 8 s = z" by simp
  define t where "t = takeWhile url_char z"
  from run_split[of url_char z t] obtain rest where
    r: "z = t @ rest" "list_all url_char t" "rest = [] \<or> \<not> url_char (hd rest)"
    unfolding t_def by blast
  have u': "u = ''https://'' @ t" using u dz by (simp only: t_def)
  have "s = u @ rest" using z r(1) u' by simp
  moreover have "t \<noteq> []" using ne dz by (simp only: t_def) simp
  ultimately show "\<exists>t rest. s = u @ rest \<and> u = ''https://'' @ t \<and> t \<noteq> [] \<and> list_all url_char t \<and>
             (rest = [] \<or> \<not> url_char (hd rest))"
    using u' r(2,3) by blast
next
  assume "\<exists>t rest. s = u @ rest \<and> u = ''https://'' @ t \<and> t \<noteq> [] \<and> list_all url_char t \<and>
             (rest = [] \<or> \<not> url_char (hd rest))"
  then obtain t rest where s: "s = u @ rest" and u: "u = ''https://'' @ t" and ne: "t \<noteq> []"
     and rr: "list_all url_char t" "rest = [] \<or> \<not> url_char (hd rest)" by blast
  have s': "s = ''https://'' @ t @ rest" using s u by simp
  have p: "prefix ''https://'' s" using s' by (simp only: prefixI)
  have d: "drop 8 s = t @ rest" using s' by simp
  have "takeWhile url_char (t @ rest) = t" using rr run_split[of url_char "t @ rest" t] by blast
  with p d ne u show "url_here s = Some u" by (simp only: url_here_def) simp
qed

lemma imagen_event_text:
  assumes "imagen_decode loads content imgs = (PStr c, imgs1)"
  shows "\<exists>t. clean_token (PStr c) = Inr t \<and>
             imagen_event loads content (resp, imgs) = Inr (resp @ t, imgs1 @ regex_fallback c)"
proof -
  obtain t where t: "clean_token (PStr c) = Inr t" using clean_token_str_total by blast
  have "imagen_scan (PStr c) resp imgs1 = Inr (resp @ t, imgs1 @ regex_fallback c)"
    by (simp only: imagen_scan.simps t sum.case)
  with assms t show ?thesis by (simp add: imagen_event_def)
qed

lemma imagen_decode_dict:
  assumes "prefix ''{'' content" and "loads content = Inr (PDict d)"
  shows "imagen_decode loads content imgs = (imagen_chunk d content, imgs @ imagen_structured d)"
  using assms by (simp add: imagen_decode_def imagen_chunk_def imagen_structured_def)

lemma regex_fallback_b64:
  "image_ref ''base64'' (PStr r) \<in> set (regex_fallback c) \<longleftrightarrow> search_b64 c = Some r"
  by (auto simp: regex_fallback_def image_ref_def split: option.splits)

lemma regex_fallback_url:
  "image_ref ''url'' (PStr u) \<in> set (regex_fallback c) \<longleftrightarrow> search_url c = Some u \<and> url_is_image u"
  by (auto simp: regex_fallback_def image_ref_def split: option.splits)

lemma main_dict_images: "main_dict d st = Go st' \<Longrightarrow> images st' = images st @ event_images d"
  by (auto simp: main_dict_def append_token_def split: if_splits sum.splits)

lemma main_event_images:
  "main_event v st = Go st' \<Longrightarrow>
     images st' = images st @ (case v of PDict d \<Rightarrow> event_images d | _ \<Rightarrow> [])"
  by (cases v) (auto simp: main_dict_images split: sum.splits)

lemma leftmost_b64:
  "search_b64 c = Some r \<longleftrightarrow>
     (\<exists>pre rest. c = pre @ ''base64,'' @ r @ rest \<and> r \<noteq> [] \<and> list_all is_b64 r \<and>
        (rest = [] \<or> \<not> is_b64 (hd rest)) \<and> (\<forall>j<length pre. b64_here (drop j c) = None))"
proof
  assume "search_b64 c = Some r"
  then obtain i where i: "i < length c" "b64_here (drop i c) = Some r" "\<forall>j<i. b64_here (drop j c) = None"
    using first_match_leftmost[of b64_here c r] by (auto simp only: search_b64_first)
  from i(2) obtain rest where r: "drop i c = ''base64,'' @ r @ rest" "r \<noteq> []" "list_all is_b64 r"
      "rest = [] \<or> \<not> is_b64 (hd rest)"
    using b64_here_Some[of "drop i c" r] by blast
  have "c = take i c @ ''base64,'' @ r @ rest" using r(1) by (metis append_take_drop_id)
  moreover have "length (take i c) = i" using i(1) by simp
  ultimately show "\<exists>pre rest. c = pre @ ''base64,'' @ r @ rest \<and> r \<noteq> [] \<and> list_all is_b64 r \<and>
        (rest = [] \<or> \<not> is_b64 (hd rest)) \<and> (\<forall>j<length pre. b64_here (drop j c) = None)"
    using r(2,3,4) i(3) by metis
next
  assume "\<exists>pre rest. c = pre @ ''base64,'' @ r @ rest \<and> r \<noteq> [] \<and> list_all is_b64 r \<and>
        (rest = [] \<or> \<not> is_b64 (hd rest)) \<and> (\<forall>j<length pre. b64_here (drop j c) = None)"
  then obtain pre rest where c: "c = pre @ ''base64,'' @ r @ rest" and r: "r \<noteq> []" "list_all is_b64 r"
      "rest = [] \<or> \<not> is_b64 (hd rest)" and e: "\<forall>j<length pre. b64_here (drop j c) = None"
    by blast
  have d: "drop (length pre) c = ''base64,'' @ r @ rest" using c by simp
  have "b64_here (drop (length pre) c) = Some r" unfolding d using r b64_here_Some by blast
  moreover have "length pre < length c" using c by simp
  ultimately have "first_match b64_here c = Some r" using e first_match_leftmost[of b64_here c r] by blast
  then show "search_b64 c = Some r" by (simp only: search_b64_first)
qed

lemma leftmost_url:
  "search_url c = Some u \<longleftrightarrow>
     (\<exists>pre t rest. c = pre @ u @ rest \<and> u = ''https://'' @ t \<and> t \<noteq> [] \<and> list_all url_char t \<and>
        (rest = [] \<or> \<not> url_char (hd rest)) \<and> (\<forall>j<length pre. url_here (drop j c) = None))"
proof
  assume "search_url c = Some u"
  then obtain i where i: "i < length c" "url_here (drop i c) = Some u" "\<forall>j<i. url_here (drop j c) = None"
    using first_match_leftmost[of url_here c u] by (auto simp only: search_url_first)
  from i(2) obtain t rest where r: "drop i c = u @ rest" "u = ''https://'' @ t" "t \<noteq> []"
      "list_all url_char t" "rest = [] \<or> \<not> url_char (hd rest)"
    using url_here_Some[of "drop i c" u] by blast
  have "c = take i c @ u @ rest" using r(1) by (metis append_take_drop_id)
  moreover have "length (take i c) = i" using i(1) by simp
  ultimately show "\<exists>pre t rest. c = pre @ u @ rest \<and> u = ''https://'' @ t \<and> t \<noteq> [] \<and> list_all url_char t \<and>
        (rest = [] \<or> \<not> url_char (hd rest)) \<and> (\<forall>j<length pre. url_here (drop j c) = None)"
    using r(2,3,4,5) i(3) by metis
next
  assume "\<exists>pre t rest. c = pre @ u @ rest \<and> u = ''https://'' @ t \<and> t \<noteq> [] \<and> list_all url_char t \<and>
        (rest = [] \<or> \<not> url_char (hd rest)) \<and> (\<forall>j<length pre. url_here (drop j c) = None)"
  then obtain pre t rest where c: "c = pre @ u @ rest" and r: "u = ''https://'' @ t" "t \<noteq> []"
      "list_all url_char t" "rest = [] \<or> \<not> url_char (hd rest)"
      and e: "\<forall>j<length pre. url_here (drop j c) = None"
    by blast
  have d: "drop (length pre) c = u @ rest" using c by simp
  have "url_here (drop (length pre) c) = Some u" unfolding d using r url_here_Some by blast
  moreover have "length pre < length c" using c r(1) by simp
  ultimately have "first_match url_here c = Some u" using e first_match_leftmost[of url_here c u] by blast
  then show "search_url c = Some u" by (simp only: search_url_first)
qed

text \<open>
  Claim C2 says that the two pattern scans run on every processed event of every model
  path. The main handler has no scan: lines 257 to 261 read the two structured fields
  and nothing else. A token with a base64 payload and an image URL, which the scans would
  turn into two references, leaves the image list of the main path empty.
\<close>

theorem main_path_no_scan_counterexample:
  \<open>regex_fallback ''see base64,QUJD and https://x/api/files/1.png''
     = [image_ref ''base64'' (PStr ''QUJD''), image_ref ''url'' (PStr ''https://x/api/files/1.png'')] \<and>
   process_kyvex_request json_loads
       (serve [''{"token":"see base64,QUJD and https://x/api/files/1.png"}''])
       [(''prompt'', PStr ''hi'')] =
     Inr (PDict [(''success'', PBool True),
                 (''meta'', PDict [(''model'', PStr ''kyvex''), (''web_search'', PBool False),
                                   (''generated_image'', PBool False), (''reasoning'', PBool False)]),
                 (''response'', PStr ''see base64,QUJD and https://x/api/files/1.png''),
                 (''thought'', PStr []), (''images'', PList [])])\<close>
  by code_simp

text \<open>
  Claim C2, amended: in the handler of the image model, every line whose chunk is a
  string \<open>c\<close> appends to the images, behind the references of the structured fields
  \<^verbatim>\<open>imageUrl\<close> and \<^verbatim>\<open>imageBase64\<close> and whether or not these matched, the references
  of the two scans of \<open>c\<close>. The scans give a base64 reference with the run \<open>r\<close> exactly
  when \<open>c\<close> has the marker \<^verbatim>\<open>base64,\<close> before the non-empty, longest run \<open>r\<close> of
  characters of the base64 alphabet at the leftmost position where the pattern matches;
  and a URL reference \<open>u\<close> exactly when \<open>u\<close> is \<^verbatim>\<open>https://\<close> with a non-empty, longest run
  of characters other than white space, the two quotes and the closing parenthesis, at
  the leftmost position where that pattern matches, and \<open>u\<close> contains \<^verbatim>\<open>api/files\<close> or
  ends, in lower case, with \<^verbatim>\<open>.png\<close>, \<^verbatim>\<open>.jpg\<close> or \<^verbatim>\<open>.jpeg\<close>. The main handler appends
  the references of the structured fields only. In the instance the structured URL is
  appended a second time by the scan.
\<close>

theorem imagen_scans_unconditional:
  "(imagen_decode loads content imgs = (PStr c, imgs1) \<longrightarrow>
      (\<exists>t. clean_token (PStr c) = Inr t \<and>
           imagen_event loads content (resp, imgs) = Inr (resp @ t, imgs1 @ regex_fallback c))) \<and>
   (prefix ''{'' content \<and> loads content = Inr (PDict d) \<longrightarrow>
      imagen_decode loads content imgs = (imagen_chunk d content, imgs @ imagen_structured d)) \<and>
   (image_ref ''base64'' (PStr r) \<in> set (regex_fallback c) \<longleftrightarrow>
      (\<exists>pre rest. c = pre @ ''base64,'' @ r @ rest \<and> r \<noteq> [] \<and> list_all is_b64 r \<and>
         (rest = [] \<or> \<not> is_b64 (hd rest)) \<and> (\<forall>j<length pre. b64_here (drop j c) = None))) \<and>
   (image_ref ''url'' (PStr u) \<in> set (regex_fallback c) \<longleftrightarrow>
      url_is_image u \<and>
      (\<exists>pre t rest. c = pre @ u @ rest \<and> u = ''https://'' @ t \<and> t \<noteq> [] \<and> list_all url_char t \<and>
         (rest = [] \<or> \<not> url_char (hd rest)) \<and> (\<forall>j<length pre. url_here (drop j c) = None))) \<and>
   (main_event v st = Go st' \<longrightarrow>
      images st' = images st @ (case v of PDict d \<Rightarrow> event_images d | _ \<Rightarrow> []))"
proof (intro conjI)
  show "imagen_decode loads content imgs = (PStr c, imgs1) \<longrightarrow>
      (\<exists>t. clean_token (PStr c) = Inr t \<and>
           imagen_event loads content (resp, imgs) = Inr (resp @ t, imgs1 @ regex_fallback c))"
    using imagen_event_text by blast
  show "prefix ''{'' content \<and> loads content = Inr (PDict d) \<longrightarrow>
      imagen_decode loads content imgs = (imagen_chunk d content, imgs @ imagen_structured d)"
    using imagen_decode_dict by blast
  show "image_ref ''base64'' (PStr r) \<in> set (regex_fallback c) \<longleftrightarrow>
      (\<exists>pre rest. c = pre @ ''base64,'' @ r @ rest \<and> r \<noteq> [] \<and> list_all is_b64 r \<and>
         (rest = [] \<or> \<not> is_b64 (hd rest)) \<and> (\<forall>j<length pre. b64_here (drop j c) = None))"
    by (simp only: regex_fallback_b64 leftmost_b64)
  show "image_ref ''url'' (PStr u) \<in> set (regex_fallback c) \<longleftrightarrow>
      url_is_image u \<and>
      (\<exists>pre t rest. c = pre @ u @ rest \<and> u = ''https://'' @ t \<and> t \<noteq> [] \<and> list_all url_char t \<and>
         (rest = [] \<or> \<not> url_char (hd rest)) \<and> (\<forall>j<length pre. url_here (drop j c) = None))"
    using regex_fallback_url[of u c] leftmost_url[of c u] by blast
  show "main_event v st = Go st' \<longrightarrow>
      images st' = images st @ (case v of PDict d \<Rightarrow> event_images d | _ \<Rightarrow> [])"
    using main_event_images by blast
qed

theorem imagen_scans_unconditional_witness:
  \<open>imagen_event json_loads
      ''{"token":"see base64,QUJD and https://x/api/files/1.png", "imageUrl":"https://x/api/files/1.png"}''
      ([], [])
    = Inr (''see base64,QUJD and https://x/api/files/1.png'',
           [image_ref ''url'' (PStr ''https://x/api/files/1.png''),
            image_ref ''base64'' (PStr ''QUJD''),
            image_ref ''url'' (PStr ''https://x/api/files/1.png'')])\<close>
proof -
  let ?content = \<open>''{"token":"see base64,QUJD and https://x/api/files/1.png", "imageUrl":"https://x/api/files/1.png"}''\<close>
  let ?c = "''see base64,QUJD and https://x/api/files/1.png''"
  let ?d = "[(''token'', PStr ?c), (''imageUrl'', PStr ''https://x/api/files/1.png'')]"
  have h: "prefix ''{'' ?content \<and> json_loads ?content = Inr (PDict ?d)" by code_simp
  have ch: "imagen_chunk ?d ?content = PStr ?c" by code_simp
  have st: "[] @ imagen_structured ?d = [image_ref ''url'' (PStr ''https://x/api/files/1.png'')]"
    by code_simp
  have rf: "regex_fallback ?c
     = [image_ref ''base64'' (PStr ''QUJD''), image_ref ''url'' (PStr ''https://x/api/files/1.png'')]"
    by code_simp
  have cl: "clean_token (PStr ?c) = Inr ?c" by code_simp
  note inst = imagen_scans_unconditional[of json_loads ?content "[]" ?c
      "[image_ref ''url'' (PStr ''https://x/api/files/1.png'')]" "[]" ?d]
  from inst[THEN conjunct2, THEN conjunct1] h
  have "imagen_decode json_loads ?content [] = (imagen_chunk ?d ?content, [] @ imagen_structured ?d)"
    by (rule mp)
  then have dec: "imagen_decode json_loads ?content []
     = (PStr ?c, [image_ref ''url'' (PStr ''https://x/api/files/1.png'')])"
    by (simp only: ch st)
  from inst[THEN conjunct1] dec
  have "\<exists>t. clean_token (PStr ?c) = Inr t \<and>
           imagen_event json_loads ?content ([], [])
             = Inr ([] @ t, [image_ref ''url'' (PStr ''https://x/api/files/1.png'')] @ regex_fallback ?c)"
    by (rule mp)
  then obtain t where t: "clean_token (PStr ?c) = Inr t"
    and ev: "imagen_event json_loads ?content ([], [])
       = Inr ([] @ t, [image_ref ''url'' (PStr ''https://x/api/files/1.png'')] @ regex_fallback ?c)"
    by (elim exE conjE)
  from t cl have "t = ?c" by simp
  with ev rf show ?thesis by simp
qed

section \<open>Markers in the handler of the image model\<close>

lemma re_sub_quotes_keeps_block:
  "dq \<notin> set m \<Longrightarrow> m \<noteq> [] \<Longrightarrow> re_sub_quotes b (m @ r) = m @ re_sub_quotes False r"
proof (induction m arbitrary: b)
  case Nil
  then show ?case by simp
next
  case (Cons c m)
  show ?case
  proof (cases m)
    case Nil
    with Cons.prems show ?thesis by simp
  next
    case (Cons c' m')
    have ne: "c \<noteq> dq" using Cons.prems(1) by auto
    have "re_sub_quotes False (m @ r) = m @ re_sub_quotes False r"
      using Cons.prems(1) Cons by (intro Cons.IH) auto
    with ne show ?thesis by simp
  qed
qed

lemma re_sub_quotes_keeps_sublist:
  "dq \<notin> set m \<Longrightarrow> sublist m s \<Longrightarrow> sublist m (re_sub_quotes b s)"
proof (induction s arbitrary: b)
  case Nil
  then show ?case by simp
next
  case (Cons x xs)
  from Cons.prems(2) consider (here) "prefix m (x # xs)" | (later) "sublist m xs"
    by (auto simp: sublist_Cons_right)
  then show ?case
  proof cases
    case here
    then obtain r where r: "x # xs = m @ r" by (auto simp: prefix_def)
    show ?thesis
    proof (cases "m = []")
      case True
      then show ?thesis by simp
    next
      case False
      then have "re_sub_quotes b (m @ r) = m @ re_sub_quotes False r"
        using Cons.prems(1) by (rule re_sub_quotes_keeps_block[rotated])
      then show ?thesis unfolding r by simp
    qed
  next
    case later
    then have "sublist m (re_sub_quotes False xs)" using Cons.IH Cons.prems(1) by blast
    then show ?thesis by (simp add: sublist_Cons_right)
  qed
qed

lemma escape_apart:
  assumes "bsl \<notin> set m" and "m \<noteq> []" and "hd m \<noteq> e"
  shows "\<forall>t. suffix t m \<and> t \<noteq> [] \<longrightarrow> apart [bsl, e] t"
    and "\<forall>t. suffix t [bsl, e] \<and> t \<noteq> [] \<longrightarrow> apart t m"
proof -
  show "\<forall>t. suffix t m \<and> t \<noteq> [] \<longrightarrow> apart [bsl, e] t"
  proof (intro allI impI)
    fix t assume t: "suffix t m \<and> t \<noteq> []"
    then obtain x t' where x: "t = x # t'" by (cases t) auto
    have "set t \<subseteq> set m" using t by (auto simp: suffix_def)
    then have "x \<noteq> bsl" using assms(1) x by auto
    then show "apart [bsl, e] t" unfolding x apart_def by simp
  qed
  show "\<forall>t. suffix t [bsl, e] \<and> t \<noteq> [] \<longrightarrow> apart t m"
  proof (intro allI impI)
    fix t assume t: "suffix t [bsl, e] \<and> t \<noteq> []"
    obtain y m' where m: "m = y # m'" using assms(2) by (cases m) auto
    have y: "y \<noteq> bsl" "y \<noteq> e" using assms(1,3) m by auto
    from t have "t = [bsl, e] \<or> t = [e]" by (auto simp: suffix_Cons)
    then show "apart t m" unfolding m apart_def using y by auto
  qed
qed

lemma escape_keeps_sublist:
  assumes "bsl \<notin> set m" and "m \<noteq> []" and "hd m \<noteq> e" and "sublist m s"
  shows "sublist m (py_replace [bsl, e] new s)"
  using py_replace_keeps_sublist[OF escape_apart[OF assms(1,2,3)] assms(2) assms(4)] .

lemma clean_token_keeps_marker:
  assumes "bsl \<notin> set m" and "dq \<notin> set m" and "m \<noteq> []"
      and "hd m \<noteq> CHR ''n''" and "hd m \<noteq> CHR ''t''" and "hd m \<noteq> dq"
      and "sublist m c" and "clean_token (PStr c) = Inr t"
  shows "sublist m t"
proof -
  have "c \<noteq> []" using assms(3,7) by auto
  then have t: "t = py_replace [bsl, dq] [dq]
             (re_sub_quotes True
               (py_replace [bsl, CHR ''t''] [tab] (py_replace [bsl, CHR ''n''] [nl] c)))"
    using assms(8) by simp
  have "sublist m (py_replace [bsl, CHR ''n''] [nl] c)"
    by (rule escape_keeps_sublist[OF assms(1,3,4,7)])
  then have "sublist m (py_replace [bsl, CHR ''t''] [tab] (py_replace [bsl, CHR ''n''] [nl] c))"
    by (rule escape_keeps_sublist[OF assms(1,3,5)])
  then have "sublist m (re_sub_quotes True
               (py_replace [bsl, CHR ''t''] [tab] (py_replace [bsl, CHR ''n''] [nl] c)))"
    by (rule re_sub_quotes_keeps_sublist[OF assms(2)])
  then show ?thesis unfolding t by (rule escape_keeps_sublist[OF assms(1,3,6)])
qed

lemma clean_token_keeps_think:
  assumes "clean_token (PStr c) = Inr t"
  shows "(sublist ''<think>'' c \<longrightarrow> sublist ''<think>'' t) \<and>
         (sublist ''</think>'' c \<longrightarrow> sublist ''</think>'' t)"
proof (intro conjI impI)
  assume "sublist ''<think>'' c"
  then show "sublist ''<think>'' t"
    using clean_token_keeps_marker[of "''<think>''" c t] assms by simp
next
  assume "sublist ''</think>'' c"
  then show "sublist ''</think>'' t"
    using clean_token_keeps_marker[of "''</think>''" c t] assms by simp
qed

lemma imagen_thought_empty:
  assumes "process_imagen_specific loads post params = PDict r" and "dict_get r ''success'' = PBool True"
  shows "dict_get r ''thought'' = PStr []"
proof (cases "post (imagen_payload params)")
  case (ConnectFault e)
  with assms show ?thesis
    by (auto simp: process_imagen_specific_def failure_message_def dict_get_def)
next
  case (Resp status body items)
  show ?thesis
  proof (cases "status = 200")
    case False
    with Resp assms show ?thesis
      by (auto simp: process_imagen_specific_def failure_status_def dict_get_def)
  next
    case True
    show ?thesis
    proof (cases "imagen_lines loads items ([], [])")
      case (Inl e)
      with Resp True assms show ?thesis
        by (auto simp: process_imagen_specific_def failure_message_def dict_get_def)
    next
      case (Inr st)
      with Resp True assms show ?thesis
        by (auto simp: process_imagen_specific_def imagen_success_def dict_get_def)
    qed
  qed
qed

lemma process_imagen_route:
  "selected_model params = Inr ''gemini-imagen-4'' \<Longrightarrow>
     process_kyvex_request loads post params = Inr (process_imagen_specific loads post params)"
  by (simp add: process_kyvex_request_def)

text \<open>
  Claim C10: the handler of the image model has no mode. A line whose chunk is a string
  appends the normalized chunk to the response, and the normalization keeps every
  occurrence of \<^verbatim>\<open><think>\<close> and \<^verbatim>\<open></think>\<close> that the chunk has; every success result of
  the handler has the empty string as its thought; and a request whose model resolves to
  the image model is answered by this handler. In the instance the four fragments
  \<^verbatim>\<open><think>\<close>, \<^verbatim>\<open>plan\<close>, \<^verbatim>\<open></think>\<close>, \<^verbatim>\<open>answer\<close> give the response
  \<^verbatim>\<open><think>plan</think>answer\<close> and an empty thought.
\<close>

theorem imagen_markers_verbatim:
  "(imagen_decode loads content imgs = (PStr c, imgs1) \<longrightarrow>
      (\<exists>t. clean_token (PStr c) = Inr t \<and>
           imagen_event loads content (resp, imgs) = Inr (resp @ t, imgs1 @ regex_fallback c) \<and>
           (sublist ''<think>'' c \<longrightarrow> sublist ''<think>'' t) \<and>
           (sublist ''</think>'' c \<longrightarrow> sublist ''</think>'' t))) \<and>
   (process_imagen_specific loads post params = PDict r \<and> dict_get r ''success'' = PBool True \<longrightarrow>
      dict_get r ''thought'' = PStr []) \<and>
   (selected_model params = Inr ''gemini-imagen-4'' \<longrightarrow>
      process_kyvex_request loads post params = Inr (process_imagen_specific loads post params))"
proof (intro conjI impI)
  assume "imagen_decode loads content imgs = (PStr c, imgs1)"
  then obtain t where t: "clean_token (PStr c) = Inr t"
     "imagen_event loads content (resp, imgs) = Inr (resp @ t, imgs1 @ regex_fallback c)"
    using imagen_event_text by blast
  with clean_token_keeps_think[OF t(1)]
  show "\<exists>t. clean_token (PStr c) = Inr t \<and>
           imagen_event loads content (resp, imgs) = Inr (resp @ t, imgs1 @ regex_fallback c) \<and>
           (sublist ''<think>'' c \<longrightarrow> sublist ''<think>'' t) \<and>
           (sublist ''</think>'' c \<longrightarrow> sublist ''</think>'' t)"
    by blast
next
  assume "process_imagen_specific loads post params = PDict r \<and> dict_get r ''success'' = PBool True"
  then show "dict_get r ''thought'' = PStr []" using imagen_thought_empty by blast
next
  assume "selected_model params = Inr ''gemini-imagen-4''"
  then show "process_kyvex_request loads post params = Inr (process_imagen_specific loads post params)"
    by (rule process_imagen_route)
qed

theorem imagen_markers_verbatim_witness:
  \<open>process_kyvex_request json_loads
       (serve [''{"token":"<think>"}'', ''{"token":"plan"}'', ''{"token":"</think>"}'', ''{"token":"answer"}''])
       [(''prompt'', PStr ''hi''), (''model'', PStr ''imagen'')] =
     Inr (PDict [(''success'', PBool True),
                 (''meta'', PDict [(''model'', PStr ''gemini-imagen-4''), (''web_search'', PBool False),
                                   (''generated_image'', PBool True), (''reasoning'', PBool False)]),
                 (''response'', PStr ''<think>plan</think>answer''),
                 (''thought'', PStr []), (''images'', PList [])]) \<and>
   dict_get [(''success'', PBool True),
                 (''meta'', PDict [(''model'', PStr ''gemini-imagen-4''), (''web_search'', PBool False),
                                   (''generated_image'', PBool True), (''reasoning'', PBool False)]),
                 (''response'', PStr ''<think>plan</think>answer''),
                 (''thought'', PStr []), (''images'', PList [])] ''thought'' = PStr []\<close>
proof -
  let ?post = \<open>serve [''{"token":"<think>"}'', ''{"token":"plan"}'', ''{"token":"</think>"}'', ''{"token":"answer"}'']\<close>
  let ?params = "[(''prompt'', PStr ''hi''), (''model'', PStr ''imagen'')]"
  let ?r = "[(''success'', PBool True),
                 (''meta'', PDict [(''model'', PStr ''gemini-imagen-4''), (''web_search'', PBool False),
                                   (''generated_image'', PBool True), (''reasoning'', PBool False)]),
                 (''response'', PStr ''<think>plan</think>answer''),
                 (''thought'', PStr []), (''images'', PList [])]"
  have sel: "selected_model ?params = Inr ''gemini-imagen-4''" by code_simp
  have run: "process_imagen_specific json_loads ?post ?params = PDict ?r" by code_simp
  have ok: "dict_get ?r ''success'' = PBool True" by code_simp
  note inst = imagen_markers_verbatim[of json_loads _ _ _ _ _ ?post ?params ?r]
  from inst sel have "process_kyvex_request json_loads ?post ?params
      = Inr (process_imagen_specific json_loads ?post ?params)" by blast
  with run have a: "process_kyvex_request json_loads ?post ?params = Inr (PDict ?r)" by simp
  from inst run ok have b: "dict_get ?r ''thought'' = PStr []" by blast
  from a b show ?thesis by blast
qed

end
